theory Spec2Isabelle
  imports
    Complex_Main
    "HOL-Library.Multiset"
    "HOL-Library.Sublist"
    "HOL-Library.Char_ord"
    "HOL-Library.List_Lexorder"
    "HOL-Library.Option_ord"
begin

section \<open>Data model of \<^verbatim>\<open>dashboard.py\<close>\<close>

text \<open>
  The script works on two pandas DataFrames. \<^verbatim>\<open>rfm\<close> has one row per customer; the
  script tests column names (\<^verbatim>\<open>'Recency' in rfm.columns\<close>) and reads the cells of four
  columns only: \<^verbatim>\<open>Recency\<close>, \<^verbatim>\<open>Frequency\<close>, \<^verbatim>\<open>Monetary\<close> and \<^verbatim>\<open>Customer_Segment\<close>.
  A row of the model holds these four cells. The three RFM columns are numeric columns of
  pandas: a cell is a number or NaN (an empty CSV field), written \<open>Some x\<close> and \<open>None\<close>.
  A segment cell is a label or NaN. The cells of every other column are never read by the
  script and are left out; the cell of a column that is not listed in \<open>columns\<close> is never
  read either, since the script guards each use by a test on \<open>columns\<close>.

  Numbers are exact rationals: sums and means are computed without the rounding of
  binary floating point and without the wrap-around of an \<^verbatim>\<open>int64\<close> column, and
  \<^verbatim>\<open>round(2)\<close> rounds the exact decimal value. Segment labels are texts, and the groups of
  \<^verbatim>\<open>groupby\<close> are in the order of the texts; pandas reads a column of numerals as numbers
  and orders the groups by value. A date is parsed on its own, where pandas infers one
  format from the first date of the column. The table of a file without data rows has
  columns of dtype \<^verbatim>\<open>object\<close>; this matters at line 192 only, where \<^verbatim>\<open>nlargest\<close> raises
  \<^verbatim>\<open>TypeError\<close> on such a column.
\<close>

record rfm_row =
  Recency :: "rat option"
  Frequency :: "rat option"
  Monetary :: "rat option"
  Customer_Segment :: "string option"

record frame =
  columns :: "string list"
  rows :: "rfm_row list"

text \<open>
  \<^verbatim>\<open>df\<close> is the transaction table. The script reads its column names and the column
  \<^verbatim>\<open>InvoiceDate\<close>, whose cells are text (or NaN) in the file and timestamps (or NaT) after
  \<^verbatim>\<open>pd.to_datetime\<close>; the type of the cells is the parameter \<open>'d\<close>.
\<close>

record 'd transactions =
  tx_columns :: "string list"
  InvoiceDate :: "'d list"

datatype error =
  FileNotFoundError | ParserError | IndexError | KeyError | ValueError | NameError | TypeError

section \<open>\<^verbatim>\<open>load_data\<close> (lines 19 to 42)\<close>

text \<open>
  \<^verbatim>\<open>rfm.rename(columns={old: new}, inplace=True)\<close> maps every column label equal to
  \<open>old\<close> to \<open>new\<close>; the cells stay where they are.
\<close>

definition rename :: "string \<Rightarrow> string \<Rightarrow> frame \<Rightarrow> frame" where
  "rename old new f = f\<lparr>columns := map (\<lambda>c. if c = old then new else c) (columns f)\<rparr>"

text \<open>
  \<^verbatim>\<open>rfm.reset_index()\<close> on the default index inserts the row numbers as a new first column
  named \<^verbatim>\<open>index\<close>, or \<^verbatim>\<open>level_0\<close> when a column \<^verbatim>\<open>index\<close> exists, and raises
  \<^verbatim>\<open>ValueError\<close> when the chosen name exists already.
\<close>

definition reset_index :: "frame \<Rightarrow> error + frame" where
  "reset_index f =
     (let name = (if ''index'' \<in> set (columns f) then ''level_0'' else ''index'')
      in if name \<in> set (columns f) then Inl ValueError
         else Inr (f\<lparr>columns := name # columns f\<rparr>))"

text \<open>Lines 23 to 33: the RFM table. \<open>src\<close> is what \<^verbatim>\<open>pd.read_csv('data/rfm_analysis.csv')\<close>
  gives: an exception or a table. \<^verbatim>\<open>rfm.columns[0]\<close> raises \<^verbatim>\<open>IndexError\<close> on a table
  with no column.\<close>

definition load_rfm :: "error + frame \<Rightarrow> error + frame" where
  "load_rfm src =
     (case src of
        Inl e \<Rightarrow> Inl e
      | Inr rfm \<Rightarrow>
         (case columns rfm of
            [] \<Rightarrow> Inl IndexError
          | c0 # _ \<Rightarrow>
             (let rfm1 = (if c0 \<in> set [''Unnamed: 0'', ''index'']
                          then rename c0 ''CustomerID'' rfm else rfm)
              in if ''CustomerID'' \<notin> set (columns rfm1)
                 then (case reset_index rfm1 of
                         Inl e \<Rightarrow> Inl e
                       | Inr rfm2 \<Rightarrow>
                           Inr (if ''index'' \<in> set (columns rfm2)
                                then rename ''index'' ''CustomerID'' rfm2 else rfm2))
                 else Inr rfm1)))"

text \<open>
  \<^verbatim>\<open>pd.to_datetime(column)\<close> with the default \<^verbatim>\<open>errors='raise'\<close>: NaN becomes NaT, a text
  is parsed, and one text that does not parse raises \<^verbatim>\<open>ValueError\<close> for the whole column.
  The parser of one text is the parameter \<open>parse\<close>.
\<close>

fun to_datetime :: "(string \<Rightarrow> 't option) \<Rightarrow> string option list \<Rightarrow> error + 't option list" where
  "to_datetime parse [] = Inr []"
| "to_datetime parse (None # cs) =
     (case to_datetime parse cs of Inl e \<Rightarrow> Inl e | Inr ts \<Rightarrow> Inr (None # ts))"
| "to_datetime parse (Some s # cs) =
     (case parse s of
        None \<Rightarrow> Inl ValueError
      | Some t \<Rightarrow> (case to_datetime parse cs of Inl e \<Rightarrow> Inl e | Inr ts \<Rightarrow> Inr (Some t # ts)))"

text \<open>Lines 36 and 37: the transaction table. \<^verbatim>\<open>df['InvoiceDate']\<close> raises \<^verbatim>\<open>KeyError\<close>
  when the column is missing.\<close>

definition load_df ::
  "(string \<Rightarrow> 't option) \<Rightarrow> error + string option transactions \<Rightarrow> error + 't option transactions" where
  "load_df parse src =
     (case src of
        Inl e \<Rightarrow> Inl e
      | Inr df \<Rightarrow>
         if ''InvoiceDate'' \<notin> set (tx_columns df) then Inl KeyError
         else (case to_datetime parse (InvoiceDate df) of
                 Inl e \<Rightarrow> Inl e
               | Inr ts \<Rightarrow> Inr \<lparr>tx_columns = tx_columns df, InvoiceDate = ts\<rparr>))"

text \<open>The body of the \<^verbatim>\<open>try\<close> block: the first exception ends it.\<close>

definition load_try ::
  "(string \<Rightarrow> 't option) \<Rightarrow> error + frame \<Rightarrow> error + string option transactions
     \<Rightarrow> error + frame \<times> 't option transactions" where
  "load_try parse rfm_csv retail_csv =
     (case load_rfm rfm_csv of
        Inl e \<Rightarrow> Inl e
      | Inr rfm \<Rightarrow>
         (case load_df parse retail_csv of
            Inl e \<Rightarrow> Inl e
          | Inr df \<Rightarrow> Inr (rfm, df)))"

text \<open>\<^verbatim>\<open>load_data\<close>: \<^verbatim>\<open>return rfm, df\<close>, or \<^verbatim>\<open>return None, None\<close> from the handler of
  every exception.\<close>

definition load_data ::
  "(string \<Rightarrow> 't option) \<Rightarrow> error + frame \<Rightarrow> error + string option transactions
     \<Rightarrow> frame option \<times> 't option transactions option" where
  "load_data parse rfm_csv retail_csv =
     (case load_try parse rfm_csv retail_csv of
        Inl e \<Rightarrow> (None, None)
      | Inr (rfm, df) \<Rightarrow> (Some rfm, Some df))"

text \<open>A cell of \<^verbatim>\<open>InvoiceDate\<close> that is a text the parser rejects.\<close>

definition unparseable :: "(string \<Rightarrow> 't option) \<Rightarrow> string option \<Rightarrow> bool" where
  "unparseable parse c = (case c of None \<Rightarrow> False | Some s \<Rightarrow> parse s = None)"

text \<open>The ways a load can fail that the specification lists: a file that cannot be read,
  a missing \<^verbatim>\<open>InvoiceDate\<close> column, one date that does not parse.\<close>

definition load_fails ::
  "(string \<Rightarrow> 't option) \<Rightarrow> error + frame \<Rightarrow> error + string option transactions \<Rightarrow> bool" where
  "load_fails parse rfm_csv retail_csv =
     (case rfm_csv of
        Inl e \<Rightarrow> True
      | Inr rfm \<Rightarrow>
         (case retail_csv of
            Inl e \<Rightarrow> True
          | Inr df \<Rightarrow> ''InvoiceDate'' \<notin> set (tx_columns df)
                      \<or> list_ex (unparseable parse) (InvoiceDate df)))"

section \<open>The segment filter (lines 57 to 70)\<close>

text \<open>\<^verbatim>\<open>Series.unique()\<close>: the values in order of first appearance, NaN among them, each once.\<close>

fun unique :: "'a list \<Rightarrow> 'a list" where
  "unique [] = []"
| "unique (x # xs) = x # unique (filter (\<lambda>y. y \<noteq> x) xs)"

text \<open>Line 59: the choices of the select box.\<close>

definition segments :: "frame \<Rightarrow> string option list" where
  "segments rfm = Some ''All'' # unique (map Customer_Segment (rows rfm))"

text \<open>
  \<^verbatim>\<open>rfm['Customer_Segment'] == selected_segment\<close>, for one cell: NaN equals nothing, not
  even NaN.
\<close>

definition eq_cell :: "string option \<Rightarrow> string option \<Rightarrow> bool" where
  "eq_cell c v = (case c of None \<Rightarrow> False | Some x \<Rightarrow> v = Some x)"

text \<open>
  \<open>choice\<close> is what the select box returns. Without the column \<^verbatim>\<open>Customer_Segment\<close>
  there is no select box and the script sets \<^verbatim>\<open>selected_segment = 'All'\<close> (line 70).
\<close>

definition selected_segment :: "frame \<Rightarrow> string option \<Rightarrow> string option" where
  "selected_segment rfm choice =
     (if ''Customer_Segment'' \<in> set (columns rfm) then choice else Some ''All'')"

definition rfm_filtered :: "frame \<Rightarrow> string option \<Rightarrow> frame" where
  "rfm_filtered rfm choice =
     (if ''Customer_Segment'' \<in> set (columns rfm)
      then (if choice \<noteq> Some ''All''
            then rfm\<lparr>rows := filter (\<lambda>r. eq_cell (Customer_Segment r) choice) (rows rfm)\<rparr>
            else rfm)
      else rfm)"

section \<open>Key metrics (lines 76 to 92)\<close>

definition dropna :: "'a option list \<Rightarrow> 'a list" where
  "dropna xs = concat (map (\<lambda>x. case x of None \<Rightarrow> [] | Some v \<Rightarrow> [v]) xs)"

text \<open>
  \<^verbatim>\<open>Series.mean()\<close> skips NaN and divides the sum by the number of values; with no value
  the division is 0.0 / 0 of numpy, which is NaN and no exception.
  \<^verbatim>\<open>Series.sum()\<close> skips NaN; the sum of no value is 0.
\<close>

definition mean :: "rat option list \<Rightarrow> rat option" where
  "mean xs = (let vs = dropna xs
              in if length vs = 0 then None else Some (sum_list vs / of_nat (length vs)))"

definition sum_col :: "rat option list \<Rightarrow> rat" where
  "sum_col xs = sum_list (dropna xs)"

text \<open>What \<^verbatim>\<open>st.metric\<close> is given: the text \<^verbatim>\<open>N/A\<close>, or a value (formatted by the script).\<close>

datatype 'a metric = N_A | Shown 'a

record key_metrics =
  Total_Customers :: nat
  Avg_Recency :: "rat option metric"
  Avg_Frequency :: "rat option metric"
  Total_Revenue :: "rat metric"

definition key_metrics :: "frame \<Rightarrow> key_metrics" where
  "key_metrics t =
     \<lparr>Total_Customers = length (rows t),
      Avg_Recency = (if ''Recency'' \<in> set (columns t)
                     then Shown (mean (map Recency (rows t))) else N_A),
      Avg_Frequency = (if ''Frequency'' \<in> set (columns t)
                       then Shown (mean (map Frequency (rows t))) else N_A),
      Total_Revenue = (if ''Monetary'' \<in> set (columns t)
                       then Shown (sum_col (map Monetary (rows t))) else N_A)\<rparr>"

section \<open>Aggregates over the whole table\<close>

text \<open>
  \<^verbatim>\<open>sort_values(ascending=False)\<close> returns the rows in non-increasing order of the key. The
  order it gives to rows with equal keys comes from numpy's default quicksort and is not
  specified, so that the descending sorts of lines 180, 192 and 243 are parameters of the
  model: any function that returns a permutation of its argument in non-increasing order.
\<close>

definition descending_sort :: "('a \<Rightarrow> 'k::linorder) \<Rightarrow> ('a list \<Rightarrow> 'a list) \<Rightarrow> bool" where
  "descending_sort key srt =
     (\<forall>xs. mset (srt xs) = mset xs \<and> sorted_wrt (\<lambda>a b. key b \<le> key a) (srt xs))"

text \<open>
  Two descending sorts. The first keeps the order of rows with equal keys: the reversed
  sequence is sorted by a stable sort and the result reversed. The second reverses the
  result of a stable ascending sort, so that rows with equal keys come out in reverse
  order. The model orders the counts of \<^verbatim>\<open>value_counts\<close> by the first; what is proved of the
  counts does not depend on the order of equal counts.
\<close>

definition sort_values_desc :: "('a \<Rightarrow> 'k::linorder) \<Rightarrow> 'a list \<Rightarrow> 'a list" where
  "sort_values_desc key xs = rev (sort_key key (rev xs))"

definition sort_values_reversing :: "('a \<Rightarrow> 'k::linorder) \<Rightarrow> 'a list \<Rightarrow> 'a list" where
  "sort_values_reversing key xs = rev (sort_key key xs)"

text \<open>
  \<^verbatim>\<open>Series.value_counts()\<close> (line 103): NaN is dropped (\<^verbatim>\<open>dropna=True\<close>), the distinct
  values are counted, and the counts are sorted in descending order.
\<close>

definition value_counts :: "'a option list \<Rightarrow> ('a \<times> nat) list" where
  "value_counts xs =
     sort_values_desc snd (map (\<lambda>k. (k, count_list (dropna xs) k)) (unique (dropna xs)))"

definition segment_counts :: "frame \<Rightarrow> (string \<times> nat) list" where
  "segment_counts rfm = value_counts (map Customer_Segment (rows rfm))"

text \<open>
  \<^verbatim>\<open>rfm.groupby('Customer_Segment')\<close>: the group keys are the distinct labels in ascending
  order; rows with a NaN key belong to no group (\<^verbatim>\<open>dropna=True\<close>).
\<close>

definition group_keys :: "frame \<Rightarrow> string list" where
  "group_keys rfm = sort (remdups (dropna (map Customer_Segment (rows rfm))))"

definition group_rows :: "frame \<Rightarrow> string \<Rightarrow> rfm_row list" where
  "group_rows rfm k = filter (\<lambda>r. Customer_Segment r = Some k) (rows rfm)"

text \<open>\<^verbatim>\<open>round(2)\<close>: to the nearest multiple of 0.01, a half to the even neighbour; NaN stays.\<close>

definition rint :: "rat \<Rightarrow> int" where
  "rint x = (let n = \<lfloor>x\<rfloor>; d = x - of_int n
             in if d < 1 / 2 then n else if 1 / 2 < d then n + 1
                else if even n then n else n + 1)"

definition round2 :: "rat \<Rightarrow> rat" where
  "round2 x = of_int (rint (x * 100)) / 100"

text \<open>Line 131: the mean of each RFM column per segment.\<close>

definition segment_rfm :: "frame \<Rightarrow> (string \<times> rat option \<times> rat option \<times> rat option) list" where
  "segment_rfm rfm =
     map (\<lambda>k. (k, map_option round2 (mean (map Recency (group_rows rfm k))),
                  map_option round2 (mean (map Frequency (group_rows rfm k))),
                  map_option round2 (mean (map Monetary (group_rows rfm k)))))
         (group_keys rfm)"

text \<open>Line 180: \<^verbatim>\<open>groupby('Customer_Segment')['Monetary'].sum()\<close>, the revenue of each
  segment, and then the descending sort \<open>srt\<close>.\<close>

definition revenue_by_group :: "frame \<Rightarrow> (string \<times> rat) list" where
  "revenue_by_group rfm =
     map (\<lambda>k. (k, sum_col (map Monetary (group_rows rfm k)))) (group_keys rfm)"

definition segment_revenue ::
  "((string \<times> rat) list \<Rightarrow> (string \<times> rat) list) \<Rightarrow> frame \<Rightarrow> (string \<times> rat) list" where
  "segment_revenue srt rfm = srt (revenue_by_group rfm)"

text \<open>
  \<^verbatim>\<open>rfm.nlargest(n, 'Monetary')\<close> on the loaded table, with the default \<^verbatim>\<open>keep='first'\<close>.
  \<^item> pandas first tests the dtype of the column and raises \<^verbatim>\<open>TypeError\<close> on the dtype
    \<^verbatim>\<open>object\<close>. \<^verbatim>\<open>read_csv\<close> gives every column of a file without data rows that dtype, so
    that a loaded table with no row raises; with rows the column is numeric.
  \<^item> When \<open>n\<close> is at least the number of rows, pandas returns
    \<^verbatim>\<open>sort_values(ascending=False).head(n)\<close>: the descending sort \<open>srt\<close> of all rows, NaN
    last, which is the least value of the order on \<open>rat option\<close>.
  \<^item> Otherwise the rows with a value are sorted by the negated value with a stable sort
    (mergesort), the rows with NaN follow in their order, and the first \<open>n\<close> rows are kept.
\<close>

definition negated :: "rfm_row \<Rightarrow> rat" where
  "negated r = (case Monetary r of None \<Rightarrow> 0 | Some m \<Rightarrow> - m)"

definition nlargest :: "(rfm_row list \<Rightarrow> rfm_row list) \<Rightarrow> nat \<Rightarrow> frame \<Rightarrow> error + rfm_row list" where
  "nlargest srt n rfm =
     (if rows rfm = [] then Inl TypeError
      else if length (rows rfm) \<le> n then Inr (take n (srt (rows rfm)))
      else Inr (take n (sort_key negated (filter (\<lambda>r. Monetary r \<noteq> None) (rows rfm))
                        @ filter (\<lambda>r. Monetary r = None) (rows rfm))))"

text \<open>Line 192: \<^verbatim>\<open>rfm.nlargest(10, 'Monetary')[['Monetary']].reset_index(drop=True)\<close>, the
  column \<^verbatim>\<open>Monetary\<close> of the ten rows.\<close>

definition top_customers :: "(rfm_row list \<Rightarrow> rfm_row list) \<Rightarrow> frame \<Rightarrow> error + rat option list" where
  "top_customers srt rfm =
     (case nlargest srt 10 rfm of Inl e \<Rightarrow> Inl e | Inr rs \<Rightarrow> Inr (map Monetary rs))"

text \<open>
  Lines 236 to 240: per segment the means of the three columns, the sum of \<^verbatim>\<open>Monetary\<close>
  and the number of its values, rounded.
\<close>

type_synonym summary_row = "string \<times> rat option \<times> rat option \<times> rat option \<times> rat \<times> nat"

definition segment_agg :: "frame \<Rightarrow> summary_row list" where
  "segment_agg rfm =
     map (\<lambda>k. (k, map_option round2 (mean (map Recency (group_rows rfm k))),
                  map_option round2 (mean (map Frequency (group_rows rfm k))),
                  map_option round2 (mean (map Monetary (group_rows rfm k))),
                  round2 (sum_col (map Monetary (group_rows rfm k))),
                  length (dropna (map Monetary (group_rows rfm k)))))
         (group_keys rfm)"

definition total_revenue :: "summary_row \<Rightarrow> rat" where
  "total_revenue x = (case x of (k, r, f, m, revenue, n) \<Rightarrow> revenue)"

text \<open>Line 243: sorted by \<^verbatim>\<open>Total Revenue\<close>, largest first, by the descending sort \<open>srt\<close>.\<close>

definition segment_summary :: "(summary_row list \<Rightarrow> summary_row list) \<Rightarrow> frame \<Rightarrow> summary_row list" where
  "segment_summary srt rfm = srt (segment_agg rfm)"

text \<open>The three descending sorts of a run of the script.\<close>

record sorts =
  sort_revenue :: "(string \<times> rat) list \<Rightarrow> (string \<times> rat) list"
  sort_monetary :: "rfm_row list \<Rightarrow> rfm_row list"
  sort_total :: "summary_row list \<Rightarrow> summary_row list"

section \<open>The script as a whole: objects, variables and statements\<close>

text \<open>
  The script binds names to objects, and some of its statements change an object in place
  (\<^verbatim>\<open>segment_counts.columns = [...]\<close>, \<^verbatim>\<open>top_customers['Customer'] = [...]\<close>), so two names
  of one object see the change. The objects live in a heap, a list addressed by position;
  a variable holds an address. An object is the RFM table (or a filtered copy of it) or a
  table derived by an aggregation: its index, its column labels and its rows of cells.
\<close>

datatype cell = NaN | Num rat | Str string

record table =
  index :: "cell list"
  labels :: "string list"
  body :: "cell list list"

datatype obj = Rfm frame | Derived table

record state =
  heap :: "obj list"
  vars :: "string \<Rightarrow> nat option"
  selected :: "string option option"
  shown_metrics :: "key_metrics option"

text \<open>A new object bound to the name \<open>x\<close>: \<^verbatim>\<open>x = <expression>\<close>. Every pandas operation of
  the script returns a new object.\<close>

definition alloc :: "string \<Rightarrow> obj \<Rightarrow> state \<Rightarrow> state" where
  "alloc x ob s = s\<lparr>heap := heap s @ [ob], vars := (vars s)(x := Some (length (heap s)))\<rparr>"

text \<open>The object a name refers to; an unbound name raises \<^verbatim>\<open>NameError\<close>.\<close>

definition lookup :: "state \<Rightarrow> string \<Rightarrow> error + obj" where
  "lookup s x =
     (case vars s x of
        None \<Rightarrow> Inl NameError
      | Some a \<Rightarrow> if a < length (heap s) then Inr (heap s ! a) else Inl NameError)"

text \<open>The RFM table a name refers to, for the statements that read the columns of
  \<^verbatim>\<open>rfm\<close> or \<^verbatim>\<open>rfm_filtered\<close>.\<close>

definition lookup_frame :: "state \<Rightarrow> string \<Rightarrow> error + frame" where
  "lookup_frame s x =
     (case lookup s x of
        Inl e \<Rightarrow> Inl e
      | Inr (Rfm f) \<Rightarrow> Inr f
      | Inr (Derived t) \<Rightarrow> Inl TypeError)"

text \<open>\<^verbatim>\<open>y = x\<close>: the name \<open>y\<close> refers to the object of \<open>x\<close>; no object is made.\<close>

definition assign :: "string \<Rightarrow> string \<Rightarrow> state \<Rightarrow> error + state" where
  "assign y x s =
     (case vars s x of
        None \<Rightarrow> Inl NameError
      | Some a \<Rightarrow> Inr (s\<lparr>vars := (vars s)(y := Some a)\<rparr>))"

text \<open>A change in place of the object of \<open>x\<close>; the change itself can raise.\<close>

definition mutate :: "string \<Rightarrow> (obj \<Rightarrow> error + obj) \<Rightarrow> state \<Rightarrow> error + state" where
  "mutate x change s =
     (case vars s x of
        None \<Rightarrow> Inl NameError
      | Some a \<Rightarrow>
         if a < length (heap s)
         then (case change (heap s ! a) of
                 Inl e \<Rightarrow> Inl e
               | Inr ob \<Rightarrow> Inr (s\<lparr>heap := (heap s)[a := ob]\<rparr>))
         else Inl NameError)"

text \<open>\<^verbatim>\<open>x.columns = ls\<close>: new labels, as many as before, or \<^verbatim>\<open>ValueError\<close>.\<close>

definition set_columns :: "string list \<Rightarrow> obj \<Rightarrow> error + obj" where
  "set_columns ls ob =
     (case ob of
        Rfm f \<Rightarrow> if length ls = length (columns f) then Inr (Rfm (f\<lparr>columns := ls\<rparr>))
                 else Inl ValueError
      | Derived t \<Rightarrow> if length ls = length (labels t) then Inr (Derived (t\<lparr>labels := ls\<rparr>))
                     else Inl ValueError)"

text \<open>
  \<^verbatim>\<open>x['Customer'] = v\<close>: one value per row, or \<^verbatim>\<open>ValueError\<close>; the column is
  replaced when it exists and added as the last column otherwise. In an RFM table the
  cells of such a column are not among the cells the model keeps.
\<close>

fun position :: "'a \<Rightarrow> 'a list \<Rightarrow> nat" where
  "position x [] = 0"
| "position x (y # ys) = (if x = y then 0 else Suc (position x ys))"

definition put_column :: "string \<Rightarrow> cell list \<Rightarrow> table \<Rightarrow> table" where
  "put_column c vs t =
     (if c \<in> set (labels t)
      then t\<lparr>body := map (\<lambda>(r, v). r[position c (labels t) := v]) (zip (body t) vs)\<rparr>
      else t\<lparr>labels := labels t @ [c], body := map (\<lambda>(r, v). r @ [v]) (zip (body t) vs)\<rparr>)"

definition assign_Customer :: "cell list \<Rightarrow> obj \<Rightarrow> error + obj" where
  "assign_Customer vs ob =
     (case ob of
        Rfm f \<Rightarrow>
          if length vs = length (rows f)
          then Inr (Rfm (if ''Customer'' \<in> set (columns f) then f
                         else f\<lparr>columns := columns f @ [''Customer'']\<rparr>))
          else Inl ValueError
      | Derived t \<Rightarrow>
          if length vs = length (body t) then Inr (Derived (put_column ''Customer'' vs t))
          else Inl ValueError)"

text \<open>
  One section of the script after the other. An exception ends the run; the run returns
  the exception and the state in which it was raised.
\<close>

fun run :: "(state \<Rightarrow> error + state) list \<Rightarrow> state \<Rightarrow> error option \<times> state" where
  "run [] s = (None, s)"
| "run (p # ps) s = (case p s of Inl e \<Rightarrow> (Some e, s) | Inr s' \<Rightarrow> run ps s')"

subsection \<open>The derived tables\<close>

definition num :: "rat option \<Rightarrow> cell" where
  "num x = (case x of None \<Rightarrow> NaN | Some v \<Rightarrow> Num v)"

definition range_index :: "nat \<Rightarrow> cell list" where
  "range_index n = map (\<lambda>i. Num (of_nat i)) [0..<n]"

text \<open>Line 103: \<^verbatim>\<open>value_counts().reset_index()\<close>, a table of the labels and their counts
  (under the column labels of pandas 2, which line 104 replaces).\<close>

definition counts_table :: "(string \<times> nat) list \<Rightarrow> table" where
  "counts_table cs =
     \<lparr>index = range_index (length cs), labels = [''Customer_Segment'', ''count''],
      body = map (\<lambda>(k, n). [Str k, Num (of_nat n)]) cs\<rparr>"

text \<open>Line 131: the segments are the index.\<close>

definition means_table :: "(string \<times> rat option \<times> rat option \<times> rat option) list \<Rightarrow> table" where
  "means_table ms =
     \<lparr>index = map (\<lambda>(k, r, f, m). Str k) ms, labels = [''Recency'', ''Frequency'', ''Monetary''],
      body = map (\<lambda>(k, r, f, m). [num r, num f, num m]) ms\<rparr>"

text \<open>Line 180: \<^verbatim>\<open>reset_index()\<close> turns the segments into a column.\<close>

definition revenue_table :: "(string \<times> rat) list \<Rightarrow> table" where
  "revenue_table rs =
     \<lparr>index = range_index (length rs), labels = [''Customer_Segment'', ''Monetary''],
      body = map (\<lambda>(k, revenue). [Str k, Num revenue]) rs\<rparr>"

text \<open>Line 192: the column \<^verbatim>\<open>Monetary\<close> alone, with a new index.\<close>

definition top_table :: "rat option list \<Rightarrow> table" where
  "top_table ms =
     \<lparr>index = range_index (length ms), labels = [''Monetary''], body = map (\<lambda>m. [num m]) ms\<rparr>"

text \<open>Lines 236 to 243: the segments are the index; \<open>ls\<close> are the column labels.\<close>

definition summary_table :: "string list \<Rightarrow> summary_row list \<Rightarrow> table" where
  "summary_table ls rs =
     \<lparr>index = map (\<lambda>(k, r, f, m, revenue, n). Str k) rs, labels = ls,
      body = map (\<lambda>(k, r, f, m, revenue, n). [num r, num f, num m, Num revenue, Num (of_nat n)]) rs\<rparr>"

text \<open>\<^verbatim>\<open>str(n)\<close> for a natural number.\<close>

fun str :: "nat \<Rightarrow> string" where
  "str n = (if n < 10 then [''0123456789'' ! n]
            else str (n div 10) @ [''0123456789'' ! (n mod 10)])"

subsection \<open>The sections of the script\<close>

text \<open>
  Lines 49 to 52. \<^verbatim>\<open>st.write("First row:", rfm.head(1))\<close> raises \<^verbatim>\<open>ValueError\<close> when two
  columns of the table have one name, which the loader brings about when it renames the
  first column of a file that has a column \<^verbatim>\<open>CustomerID\<close> already.
\<close>

definition debug_section :: "state \<Rightarrow> error + state" where
  "debug_section s =
     (case lookup_frame s ''rfm'' of
        Inl e \<Rightarrow> Inl e
      | Inr rfm \<Rightarrow> if distinct (columns rfm) then Inr s else Inl ValueError)"

text \<open>Lines 58 to 70. \<open>choice\<close> is what the select box returns.\<close>

definition filter_section :: "string option \<Rightarrow> state \<Rightarrow> error + state" where
  "filter_section choice s =
     (case lookup_frame s ''rfm'' of
        Inl e \<Rightarrow> Inl e
      | Inr rfm \<Rightarrow>
         if ''Customer_Segment'' \<in> set (columns rfm)
         then (if choice \<noteq> Some ''All''
               then Inr (alloc ''rfm_filtered''
                          (Rfm (rfm\<lparr>rows := filter (\<lambda>r. eq_cell (Customer_Segment r) choice) (rows rfm)\<rparr>))
                          (s\<lparr>selected := Some choice\<rparr>))
               else assign ''rfm_filtered'' ''rfm'' (s\<lparr>selected := Some choice\<rparr>))
         else assign ''rfm_filtered'' ''rfm'' (s\<lparr>selected := Some (Some ''All'')\<rparr>))"

text \<open>Lines 76 to 92.\<close>

definition metrics_section :: "state \<Rightarrow> error + state" where
  "metrics_section s =
     (case lookup_frame s ''rfm_filtered'' of
        Inl e \<Rightarrow> Inl e
      | Inr t \<Rightarrow> Inr (s\<lparr>shown_metrics := Some (key_metrics t)\<rparr>))"

text \<open>Lines 97 to 104.\<close>

definition counts_section :: "state \<Rightarrow> error + state" where
  "counts_section s =
     (case lookup_frame s ''rfm'' of
        Inl e \<Rightarrow> Inl e
      | Inr rfm \<Rightarrow>
         if ''Customer_Segment'' \<in> set (columns rfm)
         then mutate ''segment_counts'' (set_columns [''Segment'', ''Count''])
                (alloc ''segment_counts'' (Derived (counts_table (segment_counts rfm))) s)
         else Inr s)"

text \<open>Lines 124 to 131. The 3D scatter plot of lines 152 to 168 reads \<^verbatim>\<open>rfm_filtered\<close>.\<close>

definition rfm_section :: "state \<Rightarrow> error + state" where
  "rfm_section s =
     (case lookup_frame s ''rfm'' of
        Inl e \<Rightarrow> Inl e
      | Inr rfm \<Rightarrow>
         if list_all (\<lambda>c. c \<in> set (columns rfm)) [''Recency'', ''Frequency'', ''Monetary'']
         then (if ''Customer_Segment'' \<in> set (columns rfm)
               then Inr (alloc ''segment_rfm'' (Derived (means_table (segment_rfm rfm))) s)
               else Inr s)
         else Inr s)"

text \<open>Lines 173 to 181, under the two tests of lines 173 and 179.\<close>

definition revenue_by_segment :: "sorts \<Rightarrow> state \<Rightarrow> error + state" where
  "revenue_by_segment ps s =
     (case lookup_frame s ''rfm'' of
        Inl e \<Rightarrow> Inl e
      | Inr rfm \<Rightarrow>
         if ''Monetary'' \<in> set (columns rfm) \<and> ''Customer_Segment'' \<in> set (columns rfm)
         then mutate ''segment_revenue'' (set_columns [''Segment'', ''Revenue''])
                (alloc ''segment_revenue''
                   (Derived (revenue_table (segment_revenue (sort_revenue ps) rfm))) s)
         else Inr s)"

text \<open>Lines 192 and 193, under the test of line 173. The exception of \<^verbatim>\<open>nlargest\<close> is
  raised before anything is bound.\<close>

definition top_ten :: "sorts \<Rightarrow> state \<Rightarrow> error + state" where
  "top_ten ps s =
     (case lookup_frame s ''rfm'' of
        Inl e \<Rightarrow> Inl e
      | Inr rfm \<Rightarrow>
         if ''Monetary'' \<in> set (columns rfm)
         then (case top_customers (sort_monetary ps) rfm of
                 Inl e \<Rightarrow> Inl e
               | Inr ms \<Rightarrow>
                  (let s1 = alloc ''top_customers'' (Derived (top_table ms)) s
                   in case lookup s1 ''top_customers'' of
                        Inl e \<Rightarrow> Inl e
                      | Inr (Rfm f) \<Rightarrow>
                          mutate ''top_customers''
                            (assign_Customer
                               (map (\<lambda>i. Str (''Customer '' @ str (i + 1))) [0..<length (rows f)])) s1
                      | Inr (Derived t) \<Rightarrow>
                          mutate ''top_customers''
                            (assign_Customer
                               (map (\<lambda>i. Str (''Customer '' @ str (i + 1))) [0..<length (body t)])) s1))
         else Inr s)"

text \<open>
  Lines 234 to 243. The aggregation gives a table whose labels are the pairs of column and
  function, written here as one text each; line 242 replaces them in place; line 243 binds
  the name to a new, sorted table with the labels of the old one.
\<close>

definition summary_section :: "sorts \<Rightarrow> state \<Rightarrow> error + state" where
  "summary_section ps s =
     (case lookup_frame s ''rfm'' of
        Inl e \<Rightarrow> Inl e
      | Inr rfm \<Rightarrow>
         if ''Customer_Segment'' \<in> set (columns rfm)
            \<and> list_all (\<lambda>c. c \<in> set (columns rfm)) [''Recency'', ''Frequency'', ''Monetary'']
         then (case mutate ''segment_summary''
                      (set_columns [''Avg Recency'', ''Avg Frequency'', ''Avg Monetary'',
                                    ''Total Revenue'', ''Customer Count''])
                      (alloc ''segment_summary''
                         (Derived (summary_table
                                     [''Recency mean'', ''Frequency mean'', ''Monetary mean'',
                                      ''Monetary sum'', ''Monetary count'']
                                     (segment_agg rfm))) s) of
                 Inl e \<Rightarrow> Inl e
               | Inr s1 \<Rightarrow>
                   (case lookup s1 ''segment_summary'' of
                      Inl e \<Rightarrow> Inl e
                    | Inr (Rfm f) \<Rightarrow> Inl TypeError
                    | Inr (Derived t) \<Rightarrow>
                        Inr (alloc ''segment_summary''
                               (Derived (summary_table (labels t) (segment_summary (sort_total ps) rfm))) s1)))
         else Inr s)"

text \<open>
  One run of the script from line 44 on: the names are new, \<^verbatim>\<open>rfm\<close> refers to the loaded
  table at address \<open>a\<close> of the heap \<open>h\<close>. The charts and \<^verbatim>\<open>st.dataframe\<close> read their tables.
  The run returns the exception that ended it, if any, and its last state.
\<close>

definition start :: "obj list \<Rightarrow> nat \<Rightarrow> state" where
  "start h a = \<lparr>heap = h, vars = (\<lambda>x. None)(''rfm'' := Some a), selected = None, shown_metrics = None\<rparr>"

definition dashboard :: "sorts \<Rightarrow> string option \<Rightarrow> obj list \<Rightarrow> nat \<Rightarrow> error option \<times> state" where
  "dashboard ps choice h a =
     run [debug_section, filter_section choice, metrics_section, counts_section, rfm_section,
          revenue_by_segment ps, top_ten ps, summary_section ps] (start h a)"

text \<open>What a name refers to at the end of a run.\<close>

definition deref :: "state \<Rightarrow> string \<Rightarrow> obj option" where
  "deref s x = (case lookup s x of Inl e \<Rightarrow> None | Inr ob \<Rightarrow> Some ob)"

text \<open>The aggregates over the whole table, and everything a run computes.\<close>

definition aggregates :: "state \<Rightarrow> obj option list" where
  "aggregates s =
     map (deref s) [''segment_counts'', ''segment_rfm'', ''segment_revenue'', ''top_customers'',
                    ''segment_summary'']"

definition outputs :: "state \<Rightarrow> obj option list \<times> string option option \<times> key_metrics option" where
  "outputs s = (map (deref s) [''rfm'', ''rfm_filtered''] @ aggregates s, selected s, shown_metrics s)"

subsection \<open>Runs of the script\<close>

text \<open>Every variable refers to an object of the heap.\<close>

definition bound :: "state \<Rightarrow> bool" where
  "bound s = (\<forall>x a. vars s x = Some a \<longrightarrow> a < length (heap s))"

text \<open>
  From \<open>s\<close> to \<open>s'\<close> the objects of \<open>s\<close> are unchanged, new objects may have been added,
  and only the names in \<open>X\<close> may have been bound anew.
\<close>

definition step :: "state \<Rightarrow> state \<Rightarrow> string set \<Rightarrow> bool" where
  "step s s' X =
     (prefix (heap s) (heap s') \<and> bound s' \<and> (\<forall>y. y \<notin> X \<longrightarrow> vars s' y = vars s y))"

text \<open>The exception a run on a table ends with, if any.\<close>

definition raised :: "frame \<Rightarrow> error option" where
  "raised rfm =
     (if \<not> distinct (columns rfm) then Some ValueError
      else if ''Monetary'' \<in> set (columns rfm) \<and> rows rfm = [] then Some TypeError
      else None)"

text \<open>The table \<^verbatim>\<open>top_customers\<close> after line 193.\<close>

definition top_object :: "rat option list \<Rightarrow> obj" where
  "top_object ms =
     Derived (put_column ''Customer''
                (map (\<lambda>i. Str (''Customer '' @ str (i + 1))) [0..<length (body (top_table ms))])
                (top_table ms))"

text \<open>
  The five aggregates of a table, as the objects the names \<^verbatim>\<open>segment_counts\<close>,
  \<^verbatim>\<open>segment_rfm\<close>, \<^verbatim>\<open>segment_revenue\<close>, \<^verbatim>\<open>top_customers\<close> and \<^verbatim>\<open>segment_summary\<close> refer to
  at the end of a run; a name stays unbound when the guard of its section fails or the
  run ends before its section.
\<close>

definition full_aggregates :: "sorts \<Rightarrow> frame \<Rightarrow> obj option list" where
  "full_aggregates ps rfm =
     (let ok = distinct (columns rfm);
          seg = ''Customer_Segment'' \<in> set (columns rfm);
          all3 = list_all (\<lambda>c. c \<in> set (columns rfm)) [''Recency'', ''Frequency'', ''Monetary''];
          mon = ''Monetary'' \<in> set (columns rfm)
      in [if ok \<and> seg
          then Some (Derived ((counts_table (segment_counts rfm))\<lparr>labels := [''Segment'', ''Count'']\<rparr>))
          else None,
          if ok \<and> all3 \<and> seg then Some (Derived (means_table (segment_rfm rfm))) else None,
          if ok \<and> mon \<and> seg
          then Some (Derived ((revenue_table (segment_revenue (sort_revenue ps) rfm))
                                \<lparr>labels := [''Segment'', ''Revenue'']\<rparr>))
          else None,
          if ok \<and> mon
          then (case top_customers (sort_monetary ps) rfm of
                  Inl e \<Rightarrow> None
                | Inr ms \<Rightarrow> Some (top_object ms))
          else None,
          if ok \<and> seg \<and> all3 \<and> rows rfm \<noteq> []
          then Some (Derived (summary_table
                       [''Avg Recency'', ''Avg Frequency'', ''Avg Monetary'', ''Total Revenue'',
                        ''Customer Count''] (segment_summary (sort_total ps) rfm)))
          else None])"

section \<open>Examples of input files\<close>

definition row :: "rat \<Rightarrow> rat \<Rightarrow> rat \<Rightarrow> string \<Rightarrow> rfm_row" where
  "row r f m s = \<lparr>Recency = Some r, Frequency = Some f, Monetary = Some m, Customer_Segment = Some s\<rparr>"

definition rfm_example :: frame where
  "rfm_example =
     \<lparr>columns = [''Unnamed: 0'', ''Recency'', ''Frequency'', ''Monetary'', ''Customer_Segment''],
      rows = [row 10 2 100 ''A'', row 5 1 50 ''B'', row 20 5 300 ''A'']\<rparr>"

text \<open>A parser that accepts exactly two texts.\<close>

definition parse_example :: "string \<Rightarrow> nat option" where
  "parse_example s =
     (if s = ''2011-01-04 10:00:00'' then Some 1 else if s = ''2011-01-05 11:30:00'' then Some 2 else None)"

definition retail_example :: "string option transactions" where
  "retail_example =
     \<lparr>tx_columns = [''InvoiceNo'', ''InvoiceDate''],
      InvoiceDate = [Some ''2011-01-04 10:00:00'', None, Some ''2011-01-05 11:30:00'']\<rparr>"

definition retail_bad_date :: "string option transactions" where
  "retail_bad_date =
     \<lparr>tx_columns = [''InvoiceNo'', ''InvoiceDate''],
      InvoiceDate = [Some ''2011-01-04 10:00:00'', Some ''not a date'', Some ''2011-01-05 11:30:00'']\<rparr>"

text \<open>The table of the specification's example, under the names the loader gives.\<close>

definition rfm_loaded :: frame where
  "rfm_loaded =
     \<lparr>columns = [''CustomerID'', ''Recency'', ''Frequency'', ''Monetary'', ''Customer_Segment''],
      rows = [row 10 2 100 ''A'', row 5 1 50 ''B'', row 20 5 300 ''A'']\<rparr>"

text \<open>A table in which one customer has no segment.\<close>

definition rfm_unsegmented :: frame where
  "rfm_unsegmented =
     \<lparr>columns = [''CustomerID'', ''Recency'', ''Frequency'', ''Monetary'', ''Customer_Segment''],
      rows = [row 10 2 100 ''A'',
              \<lparr>Recency = Some 5, Frequency = Some 1, Monetary = Some 50, Customer_Segment = None\<rparr>]\<rparr>"

text \<open>A table in which one segment is labelled \<^verbatim>\<open>All\<close>.\<close>

definition rfm_all_label :: frame where
  "rfm_all_label =
     \<lparr>columns = [''CustomerID'', ''Recency'', ''Frequency'', ''Monetary'', ''Customer_Segment''],
      rows = [row 10 2 100 ''All'', row 5 1 50 ''B'']\<rparr>"

text \<open>A table with equal revenues and one missing revenue.\<close>

definition rfm_ties :: frame where
  "rfm_ties =
     \<lparr>columns = [''CustomerID'', ''Recency'', ''Frequency'', ''Monetary'', ''Customer_Segment''],
      rows = [row 1 1 50 ''A'', row 2 2 300 ''B'', row 3 3 50 ''C'',
              \<lparr>Recency = Some 4, Frequency = Some 4, Monetary = None, Customer_Segment = Some ''D''\<rparr>,
              row 5 5 300 ''E'']\<rparr>"

text \<open>A file with a header and no data row.\<close>

definition rfm_header_only :: frame where
  "rfm_header_only =
     \<lparr>columns = [''CustomerID'', ''Recency'', ''Frequency'', ''Monetary'', ''Customer_Segment''],
      rows = []\<rparr>"


text \<open>The sorts that keep the order of rows with equal keys.\<close>

definition stable_sorts :: sorts where
  "stable_sorts =
     \<lparr>sort_revenue = sort_values_desc snd, sort_monetary = sort_values_desc Monetary,
      sort_total = sort_values_desc total_revenue\<rparr>"

section \<open>The loader\<close>

lemma to_datetime_unparseable:
  "list_ex (unparseable parse) cs \<Longrightarrow> to_datetime parse cs = Inl ValueError"
  by (induction parse cs rule: to_datetime.induct)
     (auto simp: unparseable_def split: option.splits sum.splits)

lemma load_df_fails:
  "retail_csv = Inr df \<Longrightarrow>
   ''InvoiceDate'' \<notin> set (tx_columns df) \<or> list_ex (unparseable parse) (InvoiceDate df) \<Longrightarrow>
   \<exists>e. load_df parse retail_csv = Inl e"
  by (auto simp: load_df_def to_datetime_unparseable)

lemma load_try_fails:
  assumes fails: "load_fails parse rfm_csv retail_csv"
  shows "\<exists>e. load_try parse rfm_csv retail_csv = Inl e"
proof (cases "load_rfm rfm_csv")
  case (Inl e)
  then show ?thesis by (simp add: load_try_def)
next
  case ok: (Inr g)
  then obtain f where rfm: "rfm_csv = Inr f"
    by (cases rfm_csv) (simp_all add: load_rfm_def)
  show ?thesis
  proof (cases retail_csv)
    case (Inl e)
    then show ?thesis using ok by (simp add: load_try_def load_df_def)
  next
    case (Inr df)
    with fails rfm have "''InvoiceDate'' \<notin> set (tx_columns df)
        \<or> list_ex (unparseable parse) (InvoiceDate df)"
      by (simp add: load_fails_def)
    with Inr obtain e where "load_df parse retail_csv = Inl e"
      using load_df_fails by blast
    then show ?thesis using ok by (simp add: load_try_def)
  qed
qed

text \<open>
  C1. Whenever a step of the load fails (the RFM file or the transaction file cannot be
  read, the \<^verbatim>\<open>InvoiceDate\<close> column is missing, or one \<^verbatim>\<open>InvoiceDate\<close> text does not
  parse), \<^verbatim>\<open>load_data\<close> returns \<^verbatim>\<open>(None, None)\<close>; and whatever the input, it returns
  either both tables or neither.
\<close>

theorem load_data_all_or_nothing:
  "(load_fails parse rfm_csv retail_csv \<longrightarrow> load_data parse rfm_csv retail_csv = (None, None))
   \<and> (load_data parse rfm_csv retail_csv = (None, None)
      \<or> (\<exists>rfm df. load_data parse rfm_csv retail_csv = (Some rfm, Some df)))"
proof
  show "load_fails parse rfm_csv retail_csv \<longrightarrow> load_data parse rfm_csv retail_csv = (None, None)"
  proof
    assume "load_fails parse rfm_csv retail_csv"
    then obtain e where "load_try parse rfm_csv retail_csv = Inl e"
      using load_try_fails by blast
    then show "load_data parse rfm_csv retail_csv = (None, None)"
      by (simp add: load_data_def)
  qed
  show "load_data parse rfm_csv retail_csv = (None, None)
      \<or> (\<exists>rfm df. load_data parse rfm_csv retail_csv = (Some rfm, Some df))"
    by (cases "load_try parse rfm_csv retail_csv") (auto simp: load_data_def)
qed

text \<open>The transaction file with one row whose date does not parse: the load fails as a
  whole, although the RFM file is good.\<close>

theorem load_data_all_or_nothing_witness:
  "load_fails parse_example (Inr rfm_example) (Inr retail_bad_date)
   \<and> load_data parse_example (Inr rfm_example) (Inr retail_bad_date) = (None, None)"
proof -
  have bad: "load_fails parse_example (Inr rfm_example) (Inr retail_bad_date)"
    by (simp add: load_fails_def retail_bad_date_def unparseable_def parse_example_def)
  with load_data_all_or_nothing [of parse_example "Inr rfm_example" "Inr retail_bad_date"]
  show ?thesis by simp
qed

lemma load_data_example:
  "load_data parse_example (Inr rfm_example) (Inr retail_example) =
     (Some (rfm_example\<lparr>columns := [''CustomerID'', ''Recency'', ''Frequency'', ''Monetary'', ''Customer_Segment'']\<rparr>),
      Some \<lparr>tx_columns = [''InvoiceNo'', ''InvoiceDate''], InvoiceDate = [Some 1, None, Some 2]\<rparr>)"
  by (simp add: load_data_def load_try_def load_rfm_def load_df_def rename_def rfm_example_def
      retail_example_def parse_example_def)

lemma load_data_missing_file:
  "load_data parse_example (Inl FileNotFoundError) (Inr retail_example) = (None, None)"
  by (simp add: load_data_def load_try_def load_rfm_def)

lemma load_rfm_sentinel:
  assumes "columns rfm = c0 # cs" and "c0 = ''Unnamed: 0'' \<or> c0 = ''index''"
  shows "load_rfm (Inr rfm) = Inr (rename c0 ''CustomerID'' rfm)"
  using assms by (auto simp: load_rfm_def rename_def)

lemma columns_rename:
  "columns (rename old new f) = map (\<lambda>c. if c = old then new else c) (columns f)"
  by (simp add: rename_def)

lemma rows_rename: "rows (rename old new f) = rows f"
  by (simp add: rename_def)

text \<open>
  C2. When the first column of the RFM file is named \<^verbatim>\<open>Unnamed: 0\<close> (or \<^verbatim>\<open>index\<close>), the
  table of a successful load has the customer-identifier column, which the code names
  \<^verbatim>\<open>CustomerID\<close>, as its first column, has no column of the sentinel name any more, and
  has the rows of the file.
\<close>

theorem load_data_renames_sentinel:
  assumes "columns rfm = c0 # cs"
    and "c0 = ''Unnamed: 0'' \<or> c0 = ''index''"
    and "load_data parse (Inr rfm) retail_csv = (Some rfm', df')"
  shows "''CustomerID'' \<in> set (columns rfm') \<and> c0 \<notin> set (columns rfm')
         \<and> columns rfm' = ''CustomerID'' # map (\<lambda>c. if c = c0 then ''CustomerID'' else c) cs
         \<and> rows rfm' = rows rfm"
proof -
  have step: "load_rfm (Inr rfm) = Inr (rename c0 ''CustomerID'' rfm)"
    using assms(1,2) by (rule load_rfm_sentinel)
  have "rfm' = rename c0 ''CustomerID'' rfm"
    using assms(3) step
    by (auto simp: load_data_def load_try_def split: sum.splits)
  moreover have "c0 \<noteq> ''CustomerID''"
    using assms(2) by auto
  ultimately show ?thesis
    using assms(1) by (auto simp: columns_rename rows_rename)
qed

theorem load_data_renames_sentinel_witness:
  "\<exists>rfm' df'. load_data parse_example (Inr rfm_example) (Inr retail_example) = (Some rfm', df')
     \<and> ''CustomerID'' \<in> set (columns rfm') \<and> ''Unnamed: 0'' \<notin> set (columns rfm')
     \<and> rows rfm' = rows rfm_example"
proof -
  obtain rfm' df' where
    ok: "load_data parse_example (Inr rfm_example) (Inr retail_example) = (Some rfm', df')"
    using load_data_example by blast
  have cols: "columns rfm_example
      = ''Unnamed: 0'' # [''Recency'', ''Frequency'', ''Monetary'', ''Customer_Segment'']"
    by (simp add: rfm_example_def)
  from load_data_renames_sentinel [OF cols _ ok]
  have "''CustomerID'' \<in> set (columns rfm') \<and> ''Unnamed: 0'' \<notin> set (columns rfm')
      \<and> rows rfm' = rows rfm_example"
    by simp
  with ok show ?thesis by blast
qed

section \<open>Counting and sorting\<close>

lemma set_unique: "set (unique xs) = set xs"
  by (induction xs rule: unique.induct) auto

lemma distinct_unique: "distinct (unique xs)"
  by (induction xs rule: unique.induct) (auto simp: set_unique)

lemma sum_list_unique: "sum_list (map f (unique xs)) = sum f (set xs)"
  using sum_list_distinct_conv_sum_set [OF distinct_unique, of f xs] by (simp add: set_unique)

lemma mset_sort_values_desc: "mset (sort_values_desc key xs) = mset xs"
  by (simp add: sort_values_desc_def)

lemma sum_list_sort_values_desc:
  fixes f :: "'a \<Rightarrow> nat"
  shows "sum_list (map f (sort_values_desc key xs)) = sum_list (map f xs)"
proof -
  have "mset (map f (sort_values_desc key xs)) = mset (map f xs)"
    by (simp add: mset_sort_values_desc)
  then show ?thesis by (metis sum_mset_sum_list)
qed

lemma sorted_sort_values_desc:
  "sorted_wrt (\<lambda>a b. key b \<le> key a) (sort_values_desc key xs)"
proof -
  have "sorted (map key (sort_key key (rev xs)))" by simp
  then have "sorted_wrt (\<lambda>a b. key a \<le> key b) (sort_key key (rev xs))"
    by (simp add: sorted_map)
  then show ?thesis
    by (simp add: sort_values_desc_def sorted_wrt_rev)
qed

lemma dropna_filter: "map Some (dropna xs) = filter (\<lambda>x. x \<noteq> None) xs"
  by (induction xs) (auto simp: dropna_def split: option.splits)

lemma length_dropna: "length (dropna xs) = length (filter (\<lambda>x. x \<noteq> None) xs)"
  by (metis dropna_filter length_map)

lemma set_dropna: "set (dropna xs) = {v. Some v \<in> set xs}"
  by (induction xs) (auto simp: dropna_def split: option.splits)

lemma count_list_dropna: "count_list (dropna xs) v = length (filter (\<lambda>x. x = Some v) xs)"
  by (induction xs) (auto simp: dropna_def split: option.splits)

lemma sum_count_dropna:
  "sum_list (map (count_list (dropna xs)) (unique (dropna xs))) = length (dropna xs)"
  by (simp add: sum_list_unique sum_count_set)

lemma value_counts_fst:
  "mset (map fst (value_counts xs)) = mset (unique (dropna xs))"
proof -
  have "mset (map fst (value_counts xs))
      = image_mset fst (mset (map (\<lambda>k. (k, count_list (dropna xs) k)) (unique (dropna xs))))"
    by (simp add: value_counts_def mset_sort_values_desc)
  also have "\<dots> = mset (unique (dropna xs))"
    by (simp add: image_mset.compositionality comp_def)
  finally show ?thesis .
qed

lemma value_counts_snd:
  "map snd (value_counts xs) = map (count_list (dropna xs)) (map fst (value_counts xs))"
proof -
  have "\<forall>p \<in> set (value_counts xs). snd p = count_list (dropna xs) (fst p)"
    by (auto simp: value_counts_def sort_values_desc_def)
  then show ?thesis by (simp add: map_eq_conv)
qed

lemma sum_value_counts: "sum_list (map snd (value_counts xs)) = length (dropna xs)"
proof -
  have "sum_list (map snd (value_counts xs))
      = sum_list (map snd (map (\<lambda>k. (k, count_list (dropna xs) k)) (unique (dropna xs))))"
    unfolding value_counts_def by (rule sum_list_sort_values_desc)
  also have "\<dots> = sum_list (map (count_list (dropna xs)) (unique (dropna xs)))"
    by (simp add: comp_def)
  also have "\<dots> = length (dropna xs)"
    by (rule sum_count_dropna)
  finally show ?thesis .
qed

text \<open>
  C4, as amended. The counts of \<^verbatim>\<open>segment_counts\<close> sum to the number of rows whose segment
  is not missing: there is one entry per distinct label, each label is counted with the
  number of its rows, and the rows with a missing segment are in no entry. When no segment
  is missing the counts sum to the number of rows of the table.
\<close>

theorem segment_counts_sum:
  "sum_list (map snd (segment_counts rfm))
     = length (filter (\<lambda>r. Customer_Segment r \<noteq> None) (rows rfm))
   \<and> distinct (map fst (segment_counts rfm))
   \<and> set (map fst (segment_counts rfm)) = {s. Some s \<in> set (map Customer_Segment (rows rfm))}
   \<and> map snd (segment_counts rfm)
       = map (\<lambda>s. length (filter (\<lambda>r. Customer_Segment r = Some s) (rows rfm)))
             (map fst (segment_counts rfm))
   \<and> (None \<notin> set (map Customer_Segment (rows rfm))
        \<longrightarrow> sum_list (map snd (segment_counts rfm)) = length (rows rfm))"
proof -
  let ?segs = "map Customer_Segment (rows rfm)"
  have total: "sum_list (map snd (segment_counts rfm))
      = length (filter (\<lambda>r. Customer_Segment r \<noteq> None) (rows rfm))"
    by (simp add: segment_counts_def sum_value_counts length_dropna filter_map comp_def)
  have keys: "mset (map fst (segment_counts rfm)) = mset (unique (dropna ?segs))"
    unfolding segment_counts_def by (rule value_counts_fst)
  have dist: "distinct (map fst (segment_counts rfm))"
    using keys distinct_unique by (metis mset_eq_imp_distinct_iff)
  have labels: "set (map fst (segment_counts rfm)) = {s. Some s \<in> set ?segs}"
    using keys by (metis mset_eq_setD set_unique set_dropna)
  have each: "map snd (segment_counts rfm)
       = map (\<lambda>s. length (filter (\<lambda>r. Customer_Segment r = Some s) (rows rfm)))
             (map fst (segment_counts rfm))"
    using value_counts_snd [of ?segs]
    by (simp add: segment_counts_def count_list_dropna filter_map comp_def)
  have all: "sum_list (map snd (segment_counts rfm)) = length (rows rfm)"
    if "None \<notin> set ?segs"
  proof -
    from that have "\<forall>r \<in> set (rows rfm). Customer_Segment r \<noteq> None"
      by (metis image_eqI set_map)
    then have "filter (\<lambda>r. Customer_Segment r \<noteq> None) (rows rfm) = rows rfm"
      by (simp add: filter_id_conv)
    with total show ?thesis by simp
  qed
  from total dist labels each all show ?thesis by blast
qed

theorem segment_counts_sum_witness:
  "None \<notin> set (map Customer_Segment (rows rfm_loaded))
   \<and> sum_list (map snd (segment_counts rfm_loaded)) = length (rows rfm_loaded)
   \<and> segment_counts rfm_loaded = [(''A'', 2), (''B'', 1)]"
proof -
  have no_nan: "None \<notin> set (map Customer_Segment (rows rfm_loaded))"
    by (simp add: rfm_loaded_def row_def)
  have "segment_counts rfm_loaded = [(''A'', 2), (''B'', 1)]"
    by (simp add: segment_counts_def value_counts_def rfm_loaded_def row_def dropna_def
        sort_values_desc_def)
  with no_nan segment_counts_sum [of rfm_loaded] show ?thesis by simp
qed

text \<open>
  C4 as stated fails: in a table of two rows, one of them without a segment, the counts
  sum to one.
\<close>

theorem segment_counts_drop_missing:
  "sum_list (map snd (segment_counts rfm_unsegmented)) \<noteq> length (rows rfm_unsegmented)
   \<and> segment_counts rfm_unsegmented = [(''A'', 1)]
   \<and> length (rows rfm_unsegmented) = 2"
  by (simp add: segment_counts_def value_counts_def rfm_unsegmented_def row_def dropna_def
      sort_values_desc_def)

section \<open>The filter and the key metrics\<close>

lemma eq_cell_Some: "eq_cell c (Some s) = (c = Some s)"
  by (cases c) (auto simp: eq_cell_def)

lemma eq_cell_None: "eq_cell c None = False"
  by (cases c) (auto simp: eq_cell_def)

text \<open>
  C6. With the selection \<^verbatim>\<open>All\<close> the filtered table is the table itself; with a label
  \<open>s\<close> other than \<^verbatim>\<open>All\<close> it is the table with exactly the rows whose segment is \<open>s\<close>, in
  their order; in every case its rows are a subsequence of the rows of the table and its
  columns are those of the table.
\<close>

theorem rfm_filtered_spec:
  "(selected_segment rfm choice = Some ''All'' \<longrightarrow> rfm_filtered rfm choice = rfm)
   \<and> (\<forall>s. selected_segment rfm choice = Some s \<and> s \<noteq> ''All'' \<longrightarrow>
          rfm_filtered rfm choice
            = rfm\<lparr>rows := filter (\<lambda>r. Customer_Segment r = Some s) (rows rfm)\<rparr>)
   \<and> subseq (rows (rfm_filtered rfm choice)) (rows rfm)
   \<and> columns (rfm_filtered rfm choice) = columns rfm"
  by (auto simp: selected_segment_def rfm_filtered_def eq_cell_Some split: if_splits)

theorem rfm_filtered_spec_witness:
  "selected_segment rfm_loaded (Some ''All'') = Some ''All''
   \<and> length (rows (rfm_filtered rfm_loaded (Some ''All''))) = length (rows rfm_loaded)
   \<and> selected_segment rfm_loaded (Some ''A'') = Some ''A'' \<and> ''A'' \<noteq> ''All''
   \<and> rows (rfm_filtered rfm_loaded (Some ''A'')) = [row 10 2 100 ''A'', row 20 5 300 ''A'']"
proof -
  have all: "selected_segment rfm_loaded (Some ''All'') = Some ''All''"
    by (simp add: selected_segment_def)
  have a: "selected_segment rfm_loaded (Some ''A'') = Some ''A'' \<and> ''A'' \<noteq> ''All''"
    by (simp add: selected_segment_def rfm_loaded_def)
  have "rfm_filtered rfm_loaded (Some ''All'') = rfm_loaded"
    using rfm_filtered_spec [of rfm_loaded "Some ''All''"] all by blast
  moreover have "rfm_filtered rfm_loaded (Some ''A'')
      = rfm_loaded\<lparr>rows := filter (\<lambda>r. Customer_Segment r = Some ''A'') (rows rfm_loaded)\<rparr>"
    using rfm_filtered_spec [of rfm_loaded "Some ''A''"] a by blast
  moreover have "filter (\<lambda>r. Customer_Segment r = Some ''A'') (rows rfm_loaded)
      = [row 10 2 100 ''A'', row 20 5 300 ''A'']"
    by (simp add: rfm_loaded_def row_def)
  ultimately show ?thesis using all a by simp
qed


lemma mean_Nil: "mean [] = None"
  by (simp add: mean_def dropna_def)

text \<open>
  C8. The key metrics are defined for every table and the block that shows them ends
  without exception in every state in which \<^verbatim>\<open>rfm_filtered\<close> refers to a table: the number
  of customers is the number of rows, each of the three other metrics is \<^verbatim>\<open>N/A\<close> exactly
  when its column is missing, and on a table with no row the two means are NaN and the
  revenue is 0.
\<close>

theorem key_metrics_spec:
  "Total_Customers (key_metrics t) = length (rows t)
   \<and> (Avg_Recency (key_metrics t) = N_A) = (''Recency'' \<notin> set (columns t))
   \<and> (Avg_Frequency (key_metrics t) = N_A) = (''Frequency'' \<notin> set (columns t))
   \<and> (Total_Revenue (key_metrics t) = N_A) = (''Monetary'' \<notin> set (columns t))
   \<and> (rows t = [] \<longrightarrow>
        key_metrics t =
          \<lparr>Total_Customers = 0,
           Avg_Recency = (if ''Recency'' \<in> set (columns t) then Shown None else N_A),
           Avg_Frequency = (if ''Frequency'' \<in> set (columns t) then Shown None else N_A),
           Total_Revenue = (if ''Monetary'' \<in> set (columns t) then Shown 0 else N_A)\<rparr>)
   \<and> (\<forall>s. deref s ''rfm_filtered'' = Some (Rfm t) \<longrightarrow>
          metrics_section s = Inr (s\<lparr>shown_metrics := Some (key_metrics t)\<rparr>))"
proof -
  have run: "metrics_section s = Inr (s\<lparr>shown_metrics := Some (key_metrics t)\<rparr>)"
    if "deref s ''rfm_filtered'' = Some (Rfm t)" for s
  proof -
    from that have "lookup s ''rfm_filtered'' = Inr (Rfm t)"
      by (auto simp: deref_def split: sum.splits)
    then show ?thesis
      by (simp add: metrics_section_def lookup_frame_def)
  qed
  have "key_metrics t =
       \<lparr>Total_Customers = 0,
        Avg_Recency = (if ''Recency'' \<in> set (columns t) then Shown None else N_A),
        Avg_Frequency = (if ''Frequency'' \<in> set (columns t) then Shown None else N_A),
        Total_Revenue = (if ''Monetary'' \<in> set (columns t) then Shown 0 else N_A)\<rparr>"
    if "rows t = []"
    using that by (simp add: key_metrics_def mean_Nil sum_col_def dropna_def)
  moreover have "Total_Customers (key_metrics t) = length (rows t)"
    "(Avg_Recency (key_metrics t) = N_A) = (''Recency'' \<notin> set (columns t))"
    "(Avg_Frequency (key_metrics t) = N_A) = (''Frequency'' \<notin> set (columns t))"
    "(Total_Revenue (key_metrics t) = N_A) = (''Monetary'' \<notin> set (columns t))"
    by (simp_all add: key_metrics_def)
  ultimately show ?thesis using run by blast
qed

text \<open>The table filtered by a segment that no row has, in a state in which
  \<^verbatim>\<open>rfm_filtered\<close> refers to it.\<close>

theorem key_metrics_spec_witness:
  "rows (rfm_filtered rfm_loaded (Some ''C'')) = []
   \<and> key_metrics (rfm_filtered rfm_loaded (Some ''C''))
       = \<lparr>Total_Customers = 0, Avg_Recency = Shown None, Avg_Frequency = Shown None,
          Total_Revenue = Shown 0\<rparr>
   \<and> deref (start [Rfm rfm_loaded, Rfm (rfm_filtered rfm_loaded (Some ''C''))] 0
              \<lparr>vars := (\<lambda>x. None)(''rfm'' := Some 0, ''rfm_filtered'' := Some 1)\<rparr>) ''rfm_filtered''
       = Some (Rfm (rfm_filtered rfm_loaded (Some ''C'')))
   \<and> (\<exists>s'. metrics_section
            (start [Rfm rfm_loaded, Rfm (rfm_filtered rfm_loaded (Some ''C''))] 0
              \<lparr>vars := (\<lambda>x. None)(''rfm'' := Some 0, ''rfm_filtered'' := Some 1)\<rparr>) = Inr s'
          \<and> shown_metrics s'
              = Some \<lparr>Total_Customers = 0, Avg_Recency = Shown None, Avg_Frequency = Shown None,
                      Total_Revenue = Shown 0\<rparr>)"
proof -
  let ?t = "rfm_filtered rfm_loaded (Some ''C'')"
  let ?s = "start [Rfm rfm_loaded, Rfm ?t] 0
              \<lparr>vars := (\<lambda>x. None)(''rfm'' := Some 0, ''rfm_filtered'' := Some 1)\<rparr>"
  have empty: "rows ?t = []"
    by (simp add: rfm_filtered_def rfm_loaded_def row_def eq_cell_def)
  have cols: "columns ?t = [''CustomerID'', ''Recency'', ''Frequency'', ''Monetary'', ''Customer_Segment'']"
    by (simp add: rfm_filtered_def rfm_loaded_def)
  have ref: "deref ?s ''rfm_filtered'' = Some (Rfm ?t)"
    by (simp add: deref_def lookup_def start_def)
  from key_metrics_spec [of ?t] empty
  have km: "key_metrics ?t = \<lparr>Total_Customers = 0, Avg_Recency = Shown None,
      Avg_Frequency = Shown None, Total_Revenue = Shown 0\<rparr>"
    by (simp add: cols)
  from key_metrics_spec [of ?t] ref
  have "metrics_section ?s = Inr (?s\<lparr>shown_metrics := Some (key_metrics ?t)\<rparr>)"
    by blast
  then have "\<exists>s'. metrics_section ?s = Inr s' \<and> shown_metrics s' = Some (key_metrics ?t)"
    by simp
  with empty km ref show ?thesis by simp
qed

lemma length_filter_eq_cell:
  "length (filter (\<lambda>r. eq_cell (Customer_Segment r) s) rs)
     = (case s of None \<Rightarrow> 0 | Some v \<Rightarrow> count_list (dropna (map Customer_Segment rs)) v)"
  by (cases s) (simp_all add: eq_cell_None eq_cell_Some count_list_dropna filter_map comp_def)

lemma sum_option_set:
  fixes g :: "'a \<Rightarrow> nat"
  shows "sum (\<lambda>s. case s of None \<Rightarrow> 0 | Some v \<Rightarrow> g v) (set xs) = sum g (set (dropna xs))"
proof -
  have "sum g (set (dropna xs)) = sum (\<lambda>s. case s of None \<Rightarrow> 0 | Some v \<Rightarrow> g v) (Some ` set (dropna xs))"
    by (simp add: sum.reindex)
  also have "\<dots> = sum (\<lambda>s. case s of None \<Rightarrow> 0 | Some v \<Rightarrow> g v) (set xs)"
  proof (rule sum.mono_neutral_left)
    show "finite (set xs)" by simp
    show "Some ` set (dropna xs) \<subseteq> set xs" by (auto simp: set_dropna)
    show "\<forall>i\<in>set xs - Some ` set (dropna xs). (case i of None \<Rightarrow> 0 | Some v \<Rightarrow> g v) = 0"
      by (auto simp: set_dropna split: option.splits)
  qed
  finally show ?thesis by simp
qed

text \<open>
  C5, as amended. In a table with a segment column in which no segment is labelled
  \<^verbatim>\<open>All\<close>, the filtered views of the distinct segment values have, together, as many rows
  as the table has rows with a segment; so they partition the table when no segment is
  missing.
\<close>

theorem filtered_views_partition:
  assumes col: "''Customer_Segment'' \<in> set (columns rfm)"
    and no_all: "Some ''All'' \<notin> set (map Customer_Segment (rows rfm))"
  shows "sum_list (map (\<lambda>s. length (rows (rfm_filtered rfm s)))
                       (unique (map Customer_Segment (rows rfm))))
           = length (filter (\<lambda>r. Customer_Segment r \<noteq> None) (rows rfm))
         \<and> (None \<notin> set (map Customer_Segment (rows rfm)) \<longrightarrow>
              sum_list (map (\<lambda>s. length (rows (rfm_filtered rfm s)))
                            (unique (map Customer_Segment (rows rfm))))
                = length (rows rfm))"
proof -
  let ?segs = "map Customer_Segment (rows rfm)"
  let ?g = "\<lambda>s. case s of None \<Rightarrow> 0 | Some v \<Rightarrow> count_list (dropna ?segs) v"
  have "sum_list (map (\<lambda>s. length (rows (rfm_filtered rfm s))) (unique ?segs))
      = sum (\<lambda>s. length (rows (rfm_filtered rfm s))) (set ?segs)"
    by (rule sum_list_unique)
  also have "\<dots> = sum ?g (set ?segs)"
  proof (rule sum.cong)
    fix s assume "s \<in> set ?segs"
    with no_all have "s \<noteq> Some ''All''" by blast
    with col show "length (rows (rfm_filtered rfm s)) = ?g s"
      by (simp add: rfm_filtered_def length_filter_eq_cell)
  qed simp
  also have "\<dots> = sum (count_list (dropna ?segs)) (set (dropna ?segs))"
    by (rule sum_option_set)
  also have "\<dots> = length (dropna ?segs)"
    by (simp add: sum_count_set)
  also have "\<dots> = length (filter (\<lambda>r. Customer_Segment r \<noteq> None) (rows rfm))"
    by (simp add: length_dropna filter_map comp_def)
  finally have main: "sum_list (map (\<lambda>s. length (rows (rfm_filtered rfm s))) (unique ?segs))
      = length (filter (\<lambda>r. Customer_Segment r \<noteq> None) (rows rfm))" .
  have "filter (\<lambda>r. Customer_Segment r \<noteq> None) (rows rfm) = rows rfm"
    if "None \<notin> set ?segs"
  proof -
    from that have "\<forall>r \<in> set (rows rfm). Customer_Segment r \<noteq> None"
      by (metis image_eqI set_map)
    then show ?thesis by (simp add: filter_id_conv)
  qed
  with main show ?thesis by simp
qed

theorem filtered_views_partition_witness:
  "''Customer_Segment'' \<in> set (columns rfm_loaded)
   \<and> Some ''All'' \<notin> set (map Customer_Segment (rows rfm_loaded))
   \<and> None \<notin> set (map Customer_Segment (rows rfm_loaded))
   \<and> sum_list (map (\<lambda>s. length (rows (rfm_filtered rfm_loaded s)))
                    (unique (map Customer_Segment (rows rfm_loaded)))) = 3
   \<and> length (rows rfm_loaded) = 3"
proof -
  have col: "''Customer_Segment'' \<in> set (columns rfm_loaded)"
    by (simp add: rfm_loaded_def)
  have no_all: "Some ''All'' \<notin> set (map Customer_Segment (rows rfm_loaded))"
    by (simp add: rfm_loaded_def row_def)
  have no_nan: "None \<notin> set (map Customer_Segment (rows rfm_loaded))"
    by (simp add: rfm_loaded_def row_def)
  have len: "length (rows rfm_loaded) = 3"
    by (simp add: rfm_loaded_def)
  from filtered_views_partition [OF col no_all] no_nan len col no_all
  show ?thesis by simp
qed

text \<open>
  C5 as stated fails in two ways: a row without a segment is in no filtered view, and the
  view of a segment labelled \<^verbatim>\<open>All\<close> is the whole table.
\<close>

theorem filtered_views_not_partition:
  "sum_list (map (\<lambda>s. length (rows (rfm_filtered rfm_unsegmented s)))
                 (unique (map Customer_Segment (rows rfm_unsegmented))))
     \<noteq> length (rows rfm_unsegmented)
   \<and> sum_list (map (\<lambda>s. length (rows (rfm_filtered rfm_all_label s)))
                 (unique (map Customer_Segment (rows rfm_all_label))))
     \<noteq> length (rows rfm_all_label)"
  by (simp add: rfm_filtered_def rfm_unsegmented_def rfm_all_label_def row_def eq_cell_def)

section \<open>Descending sorts\<close>

lemma descending_sort_stable: "descending_sort key (sort_values_desc key)"
  by (simp add: descending_sort_def mset_sort_values_desc sorted_sort_values_desc)

lemma descending_sort_reversing: "descending_sort key (sort_values_reversing key)"
proof -
  have "sorted_wrt (\<lambda>a b. key b \<le> key a) (sort_values_reversing key xs)" for xs :: "'a list"
  proof -
    have "sorted (map key (sort_key key xs))" by (rule sorted_sort_key)
    then have "sorted_wrt (\<lambda>a b. key a \<le> key b) (sort_key key xs)"
      by (simp only: sorted_map)
    then show ?thesis
      by (simp add: sort_values_reversing_def sorted_wrt_rev)
  qed
  then show ?thesis
    by (simp add: descending_sort_def sort_values_reversing_def)
qed

lemma descending_unique:
  fixes ys :: "'k::linorder list"
  assumes "sorted_wrt (\<lambda>a b. b \<le> a) ys" and "mset ys = mset xs"
  shows "ys = rev (sort xs)"
proof -
  have "sorted (rev ys)"
    using assms(1) by (simp add: sorted_wrt_rev)
  moreover have "mset (rev ys) = mset xs"
    using assms(2) by simp
  ultimately have "sort xs = rev ys"
    by (rule properties_for_sort [rotated])
  then show ?thesis by simp
qed

lemma descending_sort_mset: "descending_sort key srt \<Longrightarrow> mset (srt xs) = mset xs"
  by (simp add: descending_sort_def)

lemma descending_sort_sorted:
  "descending_sort key srt \<Longrightarrow> sorted_wrt (\<lambda>a b. key b \<le> key a) (srt xs)"
  by (simp add: descending_sort_def)






section \<open>The top customers\<close>

lemma mset_ranked:
  "mset (sort_key negated (filter (\<lambda>r. Monetary r \<noteq> None) rs) @ filter (\<lambda>r. Monetary r = None) rs)
     = mset rs"
  by (induction rs) auto

lemma sorted_wrt_all:
  "(\<And>x y. x \<in> set xs \<Longrightarrow> y \<in> set xs \<Longrightarrow> R x y) \<Longrightarrow> sorted_wrt R xs"
  by (induction xs) auto

lemma sorted_ranked:
  "sorted_wrt (\<lambda>a b. Monetary b \<le> Monetary a)
     (sort_key negated (filter (\<lambda>r. Monetary r \<noteq> None) rs) @ filter (\<lambda>r. Monetary r = None) rs)"
proof -
  let ?S = "sort_key negated (filter (\<lambda>r. Monetary r \<noteq> None) rs)"
  let ?N = "filter (\<lambda>r. Monetary r = None) rs"
  have "sorted (map negated ?S)" by (rule sorted_sort_key)
  then have asc: "sorted_wrt (\<lambda>a b. negated a \<le> negated b) ?S"
    by (simp only: sorted_map)
  have has: "\<exists>m. Monetary r = Some m" if "r \<in> set ?S" for r
    using that by auto
  have "sorted_wrt (\<lambda>a b. Monetary b \<le> Monetary a) ?S"
  proof (rule sorted_wrt_mono_rel [OF _ asc])
    fix x y
    assume "x \<in> set ?S" "y \<in> set ?S" "negated x \<le> negated y"
    moreover from this obtain mx my where "Monetary x = Some mx" "Monetary y = Some my"
      using has by blast
    ultimately show "Monetary y \<le> Monetary x"
      by (simp add: negated_def)
  qed
  moreover have "sorted_wrt (\<lambda>a b. Monetary b \<le> Monetary a) ?N"
    by (rule sorted_wrt_all) simp
  moreover have "Monetary y \<le> Monetary x" if "x \<in> set ?S" "y \<in> set ?N" for x y
    using that by simp
  ultimately show ?thesis
    unfolding sorted_wrt_append by blast
qed

lemma filter_filter_implied:
  "(\<And>x. P x \<Longrightarrow> Q x) \<Longrightarrow> filter P (filter Q xs) = filter P xs"
  by (induction xs) auto

lemma filter_none_ranked:
  "filter (\<lambda>r. Monetary r = None) (sort_key negated (filter (\<lambda>r. Monetary r \<noteq> None) rs)) = []"
  by (simp add: filter_empty_conv)

lemma filter_some_ranked:
  "filter (\<lambda>r. Monetary r = Some m) (sort_key negated (filter (\<lambda>r. Monetary r \<noteq> None) rs))
     = filter (\<lambda>r. Monetary r = Some m) rs"
proof -
  let ?has = "filter (\<lambda>r. Monetary r \<noteq> None) rs"
  have "filter (\<lambda>r. Monetary r = Some m) (sort_key negated ?has)
      = filter (\<lambda>r. negated r = - m) (sort_key negated ?has)"
    by (rule filter_cong) (auto simp: negated_def split: option.splits)
  also have "\<dots> = filter (\<lambda>r. negated r = - m) ?has"
    by (rule sort_key_stable)
  also have "\<dots> = filter (\<lambda>r. Monetary r = Some m) ?has"
    by (rule filter_cong) (auto simp: negated_def split: option.splits)
  also have "\<dots> = filter (\<lambda>r. Monetary r = Some m) rs"
    by (rule filter_filter_implied) simp
  finally show ?thesis .
qed

lemma filter_ranked:
  "filter (\<lambda>r. Monetary r = v)
     (sort_key negated (filter (\<lambda>r. Monetary r \<noteq> None) rs) @ filter (\<lambda>r. Monetary r = None) rs)
     = filter (\<lambda>r. Monetary r = v) rs"
proof (cases v)
  case None
  have "filter (\<lambda>r. Monetary r = None) (filter (\<lambda>r. Monetary r = None) rs)
      = filter (\<lambda>r. Monetary r = None) rs"
    by (rule filter_filter_implied) simp
  then show ?thesis
    unfolding None filter_append filter_none_ranked by simp
next
  case (Some m)
  have "filter (\<lambda>r. Monetary r = Some m) (filter (\<lambda>r. Monetary r = None) rs) = []"
    by (induction rs) auto
  then show ?thesis
    unfolding Some filter_append filter_some_ranked by simp
qed

lemma prefix_filter_take: "prefix (filter P (take n xs)) (filter P xs)"
proof -
  have "filter P xs = filter P (take n xs) @ filter P (drop n xs)"
    by (metis append_take_drop_id filter_append)
  then show ?thesis by (simp add: prefix_def)
qed

lemma sorted_wrt_take_drop:
  assumes "sorted_wrt R xs" "a \<in> set (take n xs)" "b \<in> set (drop n xs)"
  shows "R a b"
proof -
  have "sorted_wrt R (take n xs @ drop n xs)" using assms(1) by simp
  then show ?thesis using assms(2,3) unfolding sorted_wrt_append by blast
qed

lemma nlargest_ranked:
  assumes srt: "descending_sort Monetary srt" and rows: "rows rfm \<noteq> []"
  shows "\<exists>ranked. nlargest srt n rfm = Inr (take n ranked)
           \<and> mset ranked = mset (rows rfm)
           \<and> sorted_wrt (\<lambda>a b. Monetary b \<le> Monetary a) ranked
           \<and> (n < length (rows rfm) \<longrightarrow>
                (\<forall>v. filter (\<lambda>r. Monetary r = v) ranked = filter (\<lambda>r. Monetary r = v) (rows rfm)))"
proof (cases "length (rows rfm) \<le> n")
  case True
  then have "nlargest srt n rfm = Inr (take n (srt (rows rfm)))"
    using rows by (simp add: nlargest_def)
  moreover have "mset (srt (rows rfm)) = mset (rows rfm)"
    using srt by (rule descending_sort_mset)
  moreover have "sorted_wrt (\<lambda>a b. Monetary b \<le> Monetary a) (srt (rows rfm))"
    using srt by (rule descending_sort_sorted)
  ultimately show ?thesis using True by auto
next
  case False
  let ?L = "sort_key negated (filter (\<lambda>r. Monetary r \<noteq> None) (rows rfm))
            @ filter (\<lambda>r. Monetary r = None) (rows rfm)"
  have "nlargest srt n rfm = Inr (take n ?L)"
    using False rows by (simp add: nlargest_def)
  moreover have "mset ?L = mset (rows rfm)" by (rule mset_ranked)
  moreover have "sorted_wrt (\<lambda>a b. Monetary b \<le> Monetary a) ?L" by (rule sorted_ranked)
  moreover have "filter (\<lambda>r. Monetary r = v) ?L = filter (\<lambda>r. Monetary r = v) (rows rfm)" for v
    by (rule filter_ranked)
  ultimately show ?thesis by blast
qed

lemma take_descending:
  assumes "mset ranked = mset rs" and "sorted_wrt (\<lambda>a b. Monetary b \<le> Monetary a) ranked"
  shows "map Monetary (take n ranked) = take n (rev (sort (map Monetary rs)))"
proof -
  have "map Monetary ranked = rev (sort (map Monetary rs))"
  proof (rule descending_unique)
    show "sorted_wrt (\<lambda>a b. b \<le> a) (map Monetary ranked)"
      using assms(2) by (simp add: sorted_wrt_map)
    show "mset (map Monetary ranked) = mset (map Monetary rs)"
      using assms(1) by (metis mset_map)
  qed
  then show ?thesis by (simp add: take_map [symmetric])
qed

text \<open>
  C3, as amended. On a loaded table with at least one row and for every descending sort,
  \<^verbatim>\<open>rfm.nlargest(n, 'Monetary')\<close> returns \<open>min n (count T)\<close> rows of the table in
  non-increasing order of \<^verbatim>\<open>Monetary\<close> (NaN, the least value of the order on \<open>rat option\<close>,
  last); no row left out has more revenue than a row returned; the revenues returned are
  the \<open>n\<close> largest of the table. When \<open>n\<close> is less than the number of rows, the rows of one
  revenue are the first rows of that revenue in the table, in their order. The column
  \<^verbatim>\<open>top_customers\<close> of line 192 holds the ten largest revenues.
\<close>

theorem nlargest_spec:
  assumes srt: "descending_sort Monetary srt" and rows: "rows rfm \<noteq> []"
  shows "\<exists>rs. nlargest srt n rfm = Inr rs
           \<and> length rs = min n (length (rows rfm))
           \<and> mset rs \<subseteq># mset (rows rfm)
           \<and> sorted_wrt (\<lambda>a b. Monetary b \<le> Monetary a) rs
           \<and> (\<forall>a b. a \<in># mset rs \<and> b \<in># mset (rows rfm) - mset rs \<longrightarrow> Monetary b \<le> Monetary a)
           \<and> map Monetary rs = take n (rev (sort (map Monetary (rows rfm))))
           \<and> (n < length (rows rfm) \<longrightarrow>
                (\<forall>v. prefix (filter (\<lambda>r. Monetary r = v) rs)
                            (filter (\<lambda>r. Monetary r = v) (rows rfm))))
           \<and> top_customers srt rfm = Inr (take 10 (rev (sort (map Monetary (rows rfm)))))"
proof -
  obtain L where run: "nlargest srt n rfm = Inr (take n L)"
    and perm: "mset L = mset (rows rfm)"
    and sorted: "sorted_wrt (\<lambda>a b. Monetary b \<le> Monetary a) L"
    and ties: "n < length (rows rfm) \<longrightarrow>
        (\<forall>v. filter (\<lambda>r. Monetary r = v) L = filter (\<lambda>r. Monetary r = v) (rows rfm))"
    using nlargest_ranked [OF srt rows, of n] by blast
  have "length L = length (rows rfm)" using perm by (metis size_mset)
  then have len: "length (take n L) = min n (length (rows rfm))"
    by (simp add: min.commute)
  have split: "mset (take n L) + mset (drop n L) = mset (rows rfm)"
    using perm by (metis append_take_drop_id mset_append)
  then have sub: "mset (take n L) \<subseteq># mset (rows rfm)"
    by (metis mset_subset_eq_add_left)
  have desc: "sorted_wrt (\<lambda>a b. Monetary b \<le> Monetary a) (take n L)"
    using sorted by (rule sorted_wrt_take)
  have rest: "mset (rows rfm) - mset (take n L) = mset (drop n L)"
    using split by (metis add_diff_cancel_left')
  have largest: "Monetary b \<le> Monetary a"
    if "a \<in># mset (take n L)" "b \<in># mset (rows rfm) - mset (take n L)" for a b
  proof -
    from that have "a \<in> set (take n L)" "b \<in> set (drop n L)"
      unfolding rest by simp_all
    with sorted show ?thesis by (rule sorted_wrt_take_drop)
  qed
  have vals: "map Monetary (take n L) = take n (rev (sort (map Monetary (rows rfm))))"
    using perm sorted by (rule take_descending)
  have stable: "prefix (filter (\<lambda>r. Monetary r = v) (take n L))
                       (filter (\<lambda>r. Monetary r = v) (rows rfm))"
    if "n < length (rows rfm)" for v
  proof -
    from that ties have "filter (\<lambda>r. Monetary r = v) L = filter (\<lambda>r. Monetary r = v) (rows rfm)"
      by blast
    then show ?thesis
      using prefix_filter_take [of "\<lambda>r. Monetary r = v" n L] by simp
  qed
  obtain L10 where run10: "nlargest srt 10 rfm = Inr (take 10 L10)"
    and perm10: "mset L10 = mset (rows rfm)"
    and sorted10: "sorted_wrt (\<lambda>a b. Monetary b \<le> Monetary a) L10"
    using nlargest_ranked [OF srt rows, of 10] by blast
  have "map Monetary (take 10 L10) = take 10 (rev (sort (map Monetary (rows rfm))))"
    using perm10 sorted10 by (rule take_descending)
  then have ten: "top_customers srt rfm = Inr (take 10 (rev (sort (map Monetary (rows rfm)))))"
    by (simp add: top_customers_def run10)
  from run len sub desc largest vals stable ten show ?thesis by blast
qed

text \<open>The three rows of largest revenue of a table of five rows, with two equal revenues.\<close>

theorem nlargest_spec_witness:
  "descending_sort Monetary (sort_values_desc Monetary :: rfm_row list \<Rightarrow> rfm_row list)
   \<and> rows rfm_ties \<noteq> [] \<and> 3 < length (rows rfm_ties)
   \<and> nlargest (sort_values_desc Monetary) 3 rfm_ties
       = Inr [row 2 2 300 ''B'', row 5 5 300 ''E'', row 1 1 50 ''A'']
   \<and> prefix (filter (\<lambda>r. Monetary r = Some 300) [row 2 2 300 ''B'', row 5 5 300 ''E'', row 1 1 50 ''A''])
             (filter (\<lambda>r. Monetary r = Some 300) (rows rfm_ties))
   \<and> top_customers (sort_values_desc Monetary) rfm_ties
       = Inr (take 10 (rev (sort (map Monetary (rows rfm_ties)))))"
proof -
  have srt: "descending_sort Monetary (sort_values_desc Monetary :: rfm_row list \<Rightarrow> rfm_row list)"
    by (rule descending_sort_stable)
  have rows: "rows rfm_ties \<noteq> []" and few: "3 < length (rows rfm_ties)"
    by (simp_all add: rfm_ties_def)
  have val: "nlargest (sort_values_desc Monetary) 3 rfm_ties
      = Inr [row 2 2 300 ''B'', row 5 5 300 ''E'', row 1 1 50 ''A'']"
    by (simp add: nlargest_def negated_def rfm_ties_def row_def)
  from nlargest_spec [OF srt rows, of 3] val few
  have "prefix (filter (\<lambda>r. Monetary r = Some 300) [row 2 2 300 ''B'', row 5 5 300 ''E'', row 1 1 50 ''A''])
               (filter (\<lambda>r. Monetary r = Some 300) (rows rfm_ties))"
    and "top_customers (sort_values_desc Monetary) rfm_ties
      = Inr (take 10 (rev (sort (map Monetary (rows rfm_ties)))))"
    by auto
  with srt rows few val show ?thesis by blast
qed

text \<open>
  C3 as stated fails in two ways. On the table of a file without data rows
  \<^verbatim>\<open>nlargest\<close> raises \<^verbatim>\<open>TypeError\<close> and returns no sequence. On a table of five rows with
  \<open>n = 10\<close> the rows come from \<^verbatim>\<open>sort_values\<close>, and with the descending sort that reverses
  the order of equal keys the two rows of revenue 300 come out against their order in the
  table.
\<close>

theorem nlargest_fails:
  "nlargest (sort_values_desc Monetary) 10 rfm_header_only = Inl TypeError
   \<and> top_customers (sort_values_desc Monetary) rfm_header_only = Inl TypeError
   \<and> nlargest (sort_values_reversing Monetary) 10 rfm_ties
       = Inr [row 5 5 300 ''E'', row 2 2 300 ''B'', row 3 3 50 ''C'', row 1 1 50 ''A'',
              \<lparr>Recency = Some 4, Frequency = Some 4, Monetary = None, Customer_Segment = Some ''D''\<rparr>]
   \<and> filter (\<lambda>r. Monetary r = Some 300) (rows rfm_ties) = [row 2 2 300 ''B'', row 5 5 300 ''E'']"
  by (simp add: nlargest_def top_customers_def rfm_header_only_def rfm_ties_def row_def
      sort_values_reversing_def)

lemma top_customers_example:
  "top_customers (sort_values_desc Monetary) rfm_ties = Inr [Some 300, Some 300, Some 50, Some 50, None]"
  by (simp add: nlargest_def top_customers_def rfm_ties_def row_def sort_values_desc_def)

section \<open>The script as a whole\<close>

lemma bound_fields [simp]:
  "bound (s\<lparr>selected := v\<rparr>) = bound s" "bound (s\<lparr>shown_metrics := m\<rparr>) = bound s"
  by (simp_all add: bound_def)

lemma deref_fields [simp]:
  "deref (s\<lparr>selected := v\<rparr>) x = deref s x" "deref (s\<lparr>shown_metrics := m\<rparr>) x = deref s x"
  by (simp_all add: deref_def lookup_def split: option.splits)

lemma step_refl: "bound s \<Longrightarrow> step s s X"
  by (simp add: step_def)

lemma step_trans: "step s s' X \<Longrightarrow> step s' s'' Y \<Longrightarrow> step s s'' (X \<union> Y)"
  unfolding step_def by (auto intro: prefix_order.trans)

lemma step_mono: "step s s' X \<Longrightarrow> X \<subseteq> Y \<Longrightarrow> step s s' Y"
  unfolding step_def by auto

lemma alloc_step: "bound s \<Longrightarrow> step s (alloc x ob s) {x}"
  by (auto simp: step_def bound_def alloc_def less_Suc_eq dest: spec)

lemma alloc_fields [simp]:
  "selected (alloc x ob s) = selected s" "shown_metrics (alloc x ob s) = shown_metrics s"
  by (simp_all add: alloc_def)

lemma deref_alloc: "deref (alloc x ob s) x = Some ob"
  by (simp add: deref_def lookup_def alloc_def)

lemma assign_step:
  "bound s \<Longrightarrow> vars s x = Some a \<Longrightarrow>
   assign y x s = Inr (s\<lparr>vars := (vars s)(y := Some a)\<rparr>)
   \<and> step s (s\<lparr>vars := (vars s)(y := Some a)\<rparr>) {y}
   \<and> deref (s\<lparr>vars := (vars s)(y := Some a)\<rparr>) y = deref s x"
  by (auto simp: assign_def step_def bound_def deref_def lookup_def)

lemma mutate_alloc:
  "mutate x change (alloc x ob s) =
     (case change ob of Inl e \<Rightarrow> Inl e | Inr ob' \<Rightarrow> Inr (alloc x ob' s))"
  by (simp add: mutate_def alloc_def split: sum.splits)

lemma step_deref:
  assumes "step s s' X" "bound s" "y \<notin> X"
  shows "deref s' y = deref s y"
proof (cases "vars s y")
  case None
  with assms show ?thesis by (simp add: step_def deref_def lookup_def)
next
  case (Some a)
  with assms have a: "a < length (heap s)" by (simp add: bound_def)
  from assms(1) obtain zs where "heap s' = heap s @ zs"
    by (auto simp: step_def prefix_def)
  with a have "heap s' ! a = heap s ! a" "a < length (heap s')"
    by (simp_all add: nth_append)
  with Some a assms show ?thesis by (simp add: step_def deref_def lookup_def)
qed

lemma lookup_frame_deref: "(lookup_frame s x = Inr f) = (deref s x = Some (Rfm f))"
  by (auto simp: lookup_frame_def deref_def split: sum.splits obj.splits)

lemma lookup_alloc: "lookup (alloc x ob s) x = Inr ob"
  by (simp add: lookup_def alloc_def)

lemma filter_section_result:
  assumes b: "bound s" and rfm: "deref s ''rfm'' = Some (Rfm rfm)"
  shows "\<exists>s'. filter_section choice s = Inr s' \<and> step s s' {''rfm_filtered''}
           \<and> deref s' ''rfm_filtered'' = Some (Rfm (rfm_filtered rfm choice))
           \<and> selected s' = Some (selected_segment rfm choice)
           \<and> shown_metrics s' = shown_metrics s"
proof -
  have lf: "lookup_frame s ''rfm'' = Inr rfm"
    using rfm by (simp add: lookup_frame_deref)
  from rfm obtain a where a: "vars s ''rfm'' = Some a"
    by (auto simp: deref_def lookup_def split: option.splits)
  show ?thesis
  proof (cases "''Customer_Segment'' \<in> set (columns rfm) \<and> choice \<noteq> Some ''All''")
    case True
    let ?ob = "Rfm (rfm\<lparr>rows := filter (\<lambda>r. eq_cell (Customer_Segment r) choice) (rows rfm)\<rparr>)"
    let ?s' = "alloc ''rfm_filtered'' ?ob (s\<lparr>selected := Some choice\<rparr>)"
    have "filter_section choice s = Inr ?s'"
      using True lf by (simp add: filter_section_def)
    moreover have "step s ?s' {''rfm_filtered''}"
      using alloc_step [of "s\<lparr>selected := Some choice\<rparr>" "''rfm_filtered''" ?ob] b
      by (simp add: step_def)
    moreover have "deref ?s' ''rfm_filtered'' = Some (Rfm (rfm_filtered rfm choice))"
      using True by (simp add: deref_alloc rfm_filtered_def)
    moreover have "selected ?s' = Some (selected_segment rfm choice)"
      using True by (simp add: selected_segment_def)
    moreover have "shown_metrics ?s' = shown_metrics s" by simp
    ultimately show ?thesis by blast
  next
    case False
    let ?v = "selected_segment rfm choice"
    let ?s0 = "s\<lparr>selected := Some ?v\<rparr>"
    let ?s' = "?s0\<lparr>vars := (vars ?s0)(''rfm_filtered'' := Some a)\<rparr>"
    have sel: "filter_section choice s = assign ''rfm_filtered'' ''rfm'' ?s0"
      using False lf by (auto simp: filter_section_def selected_segment_def)
    have facts: "assign ''rfm_filtered'' ''rfm'' ?s0 = Inr ?s' \<and> step ?s0 ?s' {''rfm_filtered''}
        \<and> deref ?s' ''rfm_filtered'' = deref ?s0 ''rfm''"
      using assign_step [of ?s0 "''rfm''" a "''rfm_filtered''"] a b by simp
    have "rfm_filtered rfm choice = rfm"
      using False by (auto simp: rfm_filtered_def)
    then have "deref ?s' ''rfm_filtered'' = Some (Rfm (rfm_filtered rfm choice))"
      using facts rfm by simp
    moreover have "step s ?s' {''rfm_filtered''}"
      using facts by (simp add: step_def)
    moreover have "selected ?s' = Some ?v" "shown_metrics ?s' = shown_metrics s"
      by simp_all
    ultimately show ?thesis using sel facts by metis
  qed
qed

lemma metrics_section_result:
  assumes "deref s ''rfm_filtered'' = Some (Rfm t)"
  shows "metrics_section s = Inr (s\<lparr>shown_metrics := Some (key_metrics t)\<rparr>)"
  using assms by (simp add: metrics_section_def lookup_frame_deref [symmetric])

lemma counts_section_result:
  assumes "deref s ''rfm'' = Some (Rfm rfm)"
  shows "counts_section s =
     Inr (if ''Customer_Segment'' \<in> set (columns rfm)
          then alloc ''segment_counts''
                 (Derived ((counts_table (segment_counts rfm))\<lparr>labels := [''Segment'', ''Count'']\<rparr>)) s
          else s)"
proof -
  have "lookup_frame s ''rfm'' = Inr rfm"
    using assms by (simp add: lookup_frame_deref)
  then show ?thesis
    by (simp add: counts_section_def mutate_alloc set_columns_def counts_table_def)
qed

lemma rfm_section_result:
  assumes "deref s ''rfm'' = Some (Rfm rfm)"
  shows "rfm_section s =
     Inr (if list_all (\<lambda>c. c \<in> set (columns rfm)) [''Recency'', ''Frequency'', ''Monetary'']
             \<and> ''Customer_Segment'' \<in> set (columns rfm)
          then alloc ''segment_rfm'' (Derived (means_table (segment_rfm rfm))) s
          else s)"
proof -
  have "lookup_frame s ''rfm'' = Inr rfm"
    using assms by (simp add: lookup_frame_deref)
  then show ?thesis
    by (simp add: rfm_section_def)
qed

lemma cond_alloc:
  assumes "bound s" and "s' = (if g then alloc x ob s else s)"
  shows "step s s' {x} \<and> deref s' x = (if g then Some ob else deref s x)
         \<and> selected s' = selected s \<and> shown_metrics s' = shown_metrics s"
  using assms by (simp add: alloc_step step_refl deref_alloc)

lemma step_trans':
  "step s s' X \<Longrightarrow> step s' s'' Y \<Longrightarrow> X \<union> Y \<subseteq> Z \<Longrightarrow> step s s'' Z"
  using step_trans step_mono by blast

lemma step_bound: "step s s' X \<Longrightarrow> bound s'"
  by (simp add: step_def)

lemma debug_section_result:
  assumes "deref s ''rfm'' = Some (Rfm rfm)"
  shows "debug_section s = (if distinct (columns rfm) then Inr s else Inl ValueError)"
proof -
  have "lookup_frame s ''rfm'' = Inr rfm"
    using assms by (simp add: lookup_frame_deref)
  then show ?thesis
    by (simp add: debug_section_def)
qed

lemma revenue_by_segment_result:
  assumes "deref s ''rfm'' = Some (Rfm rfm)"
  shows "revenue_by_segment ps s =
     Inr (if ''Monetary'' \<in> set (columns rfm) \<and> ''Customer_Segment'' \<in> set (columns rfm)
          then alloc ''segment_revenue''
                 (Derived ((revenue_table (segment_revenue (sort_revenue ps) rfm))
                             \<lparr>labels := [''Segment'', ''Revenue'']\<rparr>)) s
          else s)"
proof -
  have "lookup_frame s ''rfm'' = Inr rfm"
    using assms by (simp add: lookup_frame_deref)
  then show ?thesis
    by (simp add: revenue_by_segment_def mutate_alloc set_columns_def revenue_table_def)
qed

lemma top_ten_result:
  assumes "deref s ''rfm'' = Some (Rfm rfm)"
  shows "top_ten ps s =
     (if ''Monetary'' \<in> set (columns rfm)
      then (case top_customers (sort_monetary ps) rfm of
              Inl e \<Rightarrow> Inl e
            | Inr ms \<Rightarrow> Inr (alloc ''top_customers'' (top_object ms) s))
      else Inr s)"
proof -
  have "lookup_frame s ''rfm'' = Inr rfm"
    using assms by (simp add: lookup_frame_deref)
  then show ?thesis
    by (simp add: top_ten_def lookup_alloc mutate_alloc assign_Customer_def top_object_def
        split: sum.splits)
qed

lemma top_customers_empty: "rows rfm = [] \<Longrightarrow> top_customers srt rfm = Inl TypeError"
  by (simp add: top_customers_def nlargest_def)

lemma top_customers_rows: "rows rfm \<noteq> [] \<Longrightarrow> \<exists>ms. top_customers srt rfm = Inr ms"
  by (simp add: top_customers_def nlargest_def)

lemma summary_section_result:
  assumes "deref s ''rfm'' = Some (Rfm rfm)"
  shows "summary_section ps s =
     Inr (if ''Customer_Segment'' \<in> set (columns rfm)
             \<and> list_all (\<lambda>c. c \<in> set (columns rfm)) [''Recency'', ''Frequency'', ''Monetary'']
          then alloc ''segment_summary''
                 (Derived (summary_table
                    [''Avg Recency'', ''Avg Frequency'', ''Avg Monetary'', ''Total Revenue'',
                     ''Customer Count''] (segment_summary (sort_total ps) rfm)))
                 (alloc ''segment_summary''
                    (Derived (summary_table
                       [''Avg Recency'', ''Avg Frequency'', ''Avg Monetary'', ''Total Revenue'',
                        ''Customer Count''] (segment_agg rfm))) s)
          else s)"
proof -
  have "lookup_frame s ''rfm'' = Inr rfm"
    using assms by (simp add: lookup_frame_deref)
  then show ?thesis
    by (simp add: summary_section_def mutate_alloc set_columns_def summary_table_def lookup_alloc)
qed

text \<open>The sections up to the revenue by segment raise nothing on a table whose columns
  have different names.\<close>

lemma sections_until_revenue:
  assumes a: "a < length h" and ha: "h ! a = Rfm rfm" and ok: "distinct (columns rfm)"
  shows "\<exists>s. run ([debug_section, filter_section choice, metrics_section, counts_section,
                    rfm_section, revenue_by_segment ps] @ rest) (start h a) = run rest s
           \<and> step (start h a) s {''rfm_filtered'', ''segment_counts'', ''segment_rfm'', ''segment_revenue''}
           \<and> deref s ''rfm'' = Some (Rfm rfm)
           \<and> deref s ''rfm_filtered'' = Some (Rfm (rfm_filtered rfm choice))
           \<and> selected s = Some (selected_segment rfm choice)
           \<and> shown_metrics s = Some (key_metrics (rfm_filtered rfm choice))
           \<and> deref s ''segment_counts''
               = (if ''Customer_Segment'' \<in> set (columns rfm)
                  then Some (Derived ((counts_table (segment_counts rfm))\<lparr>labels := [''Segment'', ''Count'']\<rparr>))
                  else None)
           \<and> deref s ''segment_rfm''
               = (if list_all (\<lambda>c. c \<in> set (columns rfm)) [''Recency'', ''Frequency'', ''Monetary'']
                     \<and> ''Customer_Segment'' \<in> set (columns rfm)
                  then Some (Derived (means_table (segment_rfm rfm))) else None)
           \<and> deref s ''segment_revenue''
               = (if ''Monetary'' \<in> set (columns rfm) \<and> ''Customer_Segment'' \<in> set (columns rfm)
                  then Some (Derived ((revenue_table (segment_revenue (sort_revenue ps) rfm))
                                        \<lparr>labels := [''Segment'', ''Revenue'']\<rparr>))
                  else None)
           \<and> deref s ''top_customers'' = None \<and> deref s ''segment_summary'' = None"
proof -
  let ?seg = "''Customer_Segment'' \<in> set (columns rfm)"
  let ?all3 = "list_all (\<lambda>c. c \<in> set (columns rfm)) [''Recency'', ''Frequency'', ''Monetary'']"
  let ?mon = "''Monetary'' \<in> set (columns rfm)"
  let ?counts = "Derived ((counts_table (segment_counts rfm))\<lparr>labels := [''Segment'', ''Count'']\<rparr>)"
  let ?means = "Derived (means_table (segment_rfm rfm))"
  let ?rev = "Derived ((revenue_table (segment_revenue (sort_revenue ps) rfm))
                         \<lparr>labels := [''Segment'', ''Revenue'']\<rparr>)"
  let ?s0 = "start h a"
  have b0: "bound ?s0"
    using a by (simp add: bound_def start_def)
  have rfm0: "deref ?s0 ''rfm'' = Some (Rfm rfm)"
    using a ha by (simp add: deref_def lookup_def start_def)
  have none0: "deref ?s0 x = None" if "x \<noteq> ''rfm''" for x
    using that by (simp add: deref_def lookup_def start_def)
  have r0: "debug_section ?s0 = Inr ?s0"
    using debug_section_result [OF rfm0] ok by simp
  \<comment> \<open>the filter\<close>
  obtain s1 where r1: "filter_section choice ?s0 = Inr s1"
    and st1: "step ?s0 s1 {''rfm_filtered''}"
    and flt1: "deref s1 ''rfm_filtered'' = Some (Rfm (rfm_filtered rfm choice))"
    and sel1: "selected s1 = Some (selected_segment rfm choice)"
    using filter_section_result [OF b0 rfm0, of choice] by blast
  have b1: "bound s1" using st1 by (rule step_bound)
  \<comment> \<open>the key metrics\<close>
  define s2 where "s2 = s1\<lparr>shown_metrics := Some (key_metrics (rfm_filtered rfm choice))\<rparr>"
  have r2: "metrics_section s1 = Inr s2"
    unfolding s2_def using flt1 by (rule metrics_section_result)
  have st2: "step s1 s2 {}"
    unfolding s2_def using b1 by (simp add: step_def)
  have b2: "bound s2" using st2 by (rule step_bound)
  have f2: "selected s2 = selected s1" "shown_metrics s2 = Some (key_metrics (rfm_filtered rfm choice))"
    by (simp_all add: s2_def)
  have st02: "step ?s0 s2 {''rfm_filtered''}"
    by (rule step_trans' [OF st1 st2]) auto
  have rfm2: "deref s2 ''rfm'' = Some (Rfm rfm)"
    using step_deref [OF st02 b0, of "''rfm''"] rfm0 by simp
  have none2: "deref s2 x = None" if "x \<noteq> ''rfm''" "x \<noteq> ''rfm_filtered''" for x
    using step_deref [OF st02 b0, of x] none0 [of x] that by simp
  \<comment> \<open>the segment counts\<close>
  define s3 where "s3 = (if ?seg then alloc ''segment_counts'' ?counts s2 else s2)"
  have r3: "counts_section s2 = Inr s3"
    unfolding s3_def using rfm2 by (rule counts_section_result)
  have c3: "step s2 s3 {''segment_counts''}
      \<and> deref s3 ''segment_counts'' = (if ?seg then Some ?counts else deref s2 ''segment_counts'')
      \<and> selected s3 = selected s2 \<and> shown_metrics s3 = shown_metrics s2"
    using b2 s3_def by (rule cond_alloc)
  then have st3: "step s2 s3 {''segment_counts''}" by blast
  have b3: "bound s3" using st3 by (rule step_bound)
  have rfm3: "deref s3 ''rfm'' = Some (Rfm rfm)"
    using step_deref [OF st3 b2, of "''rfm''"] rfm2 by simp
  \<comment> \<open>the means\<close>
  define s4 where "s4 = (if ?all3 \<and> ?seg then alloc ''segment_rfm'' ?means s3 else s3)"
  have r4: "rfm_section s3 = Inr s4"
    unfolding s4_def using rfm3 by (rule rfm_section_result)
  have c4: "step s3 s4 {''segment_rfm''}
      \<and> deref s4 ''segment_rfm'' = (if ?all3 \<and> ?seg then Some ?means else deref s3 ''segment_rfm'')
      \<and> selected s4 = selected s3 \<and> shown_metrics s4 = shown_metrics s3"
    using b3 s4_def by (rule cond_alloc)
  then have st4: "step s3 s4 {''segment_rfm''}" by blast
  have b4: "bound s4" using st4 by (rule step_bound)
  have rfm4: "deref s4 ''rfm'' = Some (Rfm rfm)"
    using step_deref [OF st4 b3, of "''rfm''"] rfm3 by simp
  \<comment> \<open>the revenue by segment\<close>
  define s5 where "s5 = (if ?mon \<and> ?seg then alloc ''segment_revenue'' ?rev s4 else s4)"
  have r5: "revenue_by_segment ps s4 = Inr s5"
    unfolding s5_def using rfm4 by (rule revenue_by_segment_result)
  have c5: "step s4 s5 {''segment_revenue''}
      \<and> deref s5 ''segment_revenue'' = (if ?mon \<and> ?seg then Some ?rev else deref s4 ''segment_revenue'')
      \<and> selected s5 = selected s4 \<and> shown_metrics s5 = shown_metrics s4"
    using b4 s5_def by (rule cond_alloc)
  then have st5: "step s4 s5 {''segment_revenue''}" by blast
  \<comment> \<open>what later sections leave alone\<close>
  have st24: "step s2 s4 {''segment_counts'', ''segment_rfm''}"
    by (rule step_trans' [OF st3 st4]) auto
  have st35: "step s3 s5 {''segment_rfm'', ''segment_revenue''}"
    by (rule step_trans' [OF st4 st5]) auto
  have st25: "step s2 s5 {''segment_counts'', ''segment_rfm'', ''segment_revenue''}"
    by (rule step_trans' [OF st24 st5]) auto
  have st05: "step ?s0 s5 {''rfm_filtered'', ''segment_counts'', ''segment_rfm'', ''segment_revenue''}"
    by (rule step_trans' [OF st02 st25]) auto
  have run: "run ([debug_section, filter_section choice, metrics_section, counts_section,
      rfm_section, revenue_by_segment ps] @ rest) ?s0 = run rest s5"
    by (simp add: r0 r1 r2 r3 r4 r5)
  have rfm5: "deref s5 ''rfm'' = Some (Rfm rfm)"
    using step_deref [OF st05 b0, of "''rfm''"] rfm0 by simp
  have flt5: "deref s5 ''rfm_filtered'' = Some (Rfm (rfm_filtered rfm choice))"
    using step_deref [OF st25 b2, of "''rfm_filtered''"] step_deref [OF st2 b1, of "''rfm_filtered''"]
      flt1 by simp
  have sel5: "selected s5 = Some (selected_segment rfm choice)"
    using c5 c4 c3 f2 sel1 by simp
  have met5: "shown_metrics s5 = Some (key_metrics (rfm_filtered rfm choice))"
    using c5 c4 c3 f2 by simp
  have counts5: "deref s5 ''segment_counts'' = (if ?seg then Some ?counts else None)"
    using step_deref [OF st35 b3, of "''segment_counts''"] c3 none2 [of "''segment_counts''"] by simp
  have means5: "deref s5 ''segment_rfm'' = (if ?all3 \<and> ?seg then Some ?means else None)"
    using step_deref [OF st5 b4, of "''segment_rfm''"] c4
      step_deref [OF st3 b2, of "''segment_rfm''"] none2 [of "''segment_rfm''"] by simp
  have rev5: "deref s5 ''segment_revenue'' = (if ?mon \<and> ?seg then Some ?rev else None)"
    using c5 step_deref [OF st24 b2, of "''segment_revenue''"] none2 [of "''segment_revenue''"] by simp
  have top5: "deref s5 ''top_customers'' = None"
    using step_deref [OF st25 b2, of "''top_customers''"] none2 [of "''top_customers''"] by simp
  have sum5: "deref s5 ''segment_summary'' = None"
    using step_deref [OF st25 b2, of "''segment_summary''"] none2 [of "''segment_summary''"] by simp
  from run st05 rfm5 flt5 sel5 met5 counts5 means5 rev5 top5 sum5 show ?thesis by blast
qed

lemma start_facts:
  assumes a: "a < length h" and ha: "h ! a = Rfm rfm"
  shows "bound (start h a)" "deref (start h a) ''rfm'' = Some (Rfm rfm)"
    "x \<noteq> ''rfm'' \<Longrightarrow> deref (start h a) x = None"
    "heap (start h a) = h" "vars (start h a) ''rfm'' = Some a"
    "selected (start h a) = None" "shown_metrics (start h a) = None"
  using a ha by (simp_all add: bound_def deref_def lookup_def start_def)

lemma all3_Monetary:
  "list_all (\<lambda>c. c \<in> set cs) [''Recency'', ''Frequency'', ''Monetary''] \<Longrightarrow> ''Monetary'' \<in> set cs"
  by simp

text \<open>A run ends in the way \<open>raised\<close> tells, in a state whose heap extends the heap of the
  start and whose aggregates are those of the whole table.\<close>

lemma dashboard_result:
  assumes a: "a < length h" and ha: "h ! a = Rfm rfm"
  shows "\<exists>s. dashboard ps choice h a = (raised rfm, s)
           \<and> prefix h (heap s) \<and> vars s ''rfm'' = Some a
           \<and> deref s ''rfm'' = Some (Rfm rfm)
           \<and> deref s ''rfm_filtered''
               = (if distinct (columns rfm) then Some (Rfm (rfm_filtered rfm choice)) else None)
           \<and> selected s = (if distinct (columns rfm) then Some (selected_segment rfm choice) else None)
           \<and> shown_metrics s
               = (if distinct (columns rfm) then Some (key_metrics (rfm_filtered rfm choice)) else None)
           \<and> aggregates s = full_aggregates ps rfm"
proof (cases "distinct (columns rfm)")
  case False
  let ?s0 = "start h a"
  note s0 = start_facts [OF a ha]
  have "debug_section ?s0 = Inl ValueError"
    using debug_section_result [OF s0(2)] False by simp
  then have run: "dashboard ps choice h a = (raised rfm, ?s0)"
    using False by (simp add: dashboard_def raised_def)
  have agg: "aggregates ?s0 = full_aggregates ps rfm"
    using False by (simp add: aggregates_def full_aggregates_def s0(3))
  have flt: "deref ?s0 ''rfm_filtered'' = None"
    by (simp add: s0(3))
  have pre: "prefix h (heap ?s0)"
    by (simp add: s0(4))
  from run agg flt pre s0(2) s0(5) s0(6) s0(7) False show ?thesis by simp
next
  case ok: True
  let ?seg = "''Customer_Segment'' \<in> set (columns rfm)"
  let ?all3 = "list_all (\<lambda>c. c \<in> set (columns rfm)) [''Recency'', ''Frequency'', ''Monetary'']"
  let ?mon = "''Monetary'' \<in> set (columns rfm)"
  let ?counts = "Derived ((counts_table (segment_counts rfm))\<lparr>labels := [''Segment'', ''Count'']\<rparr>)"
  let ?means = "Derived (means_table (segment_rfm rfm))"
  let ?rev = "Derived ((revenue_table (segment_revenue (sort_revenue ps) rfm))
                         \<lparr>labels := [''Segment'', ''Revenue'']\<rparr>)"
  let ?ls = "[''Avg Recency'', ''Avg Frequency'', ''Avg Monetary'', ''Total Revenue'', ''Customer Count'']"
  let ?agg = "Derived (summary_table ?ls (segment_agg rfm))"
  let ?sum = "Derived (summary_table ?ls (segment_summary (sort_total ps) rfm))"
  let ?s0 = "start h a"
  note s0 = start_facts [OF a ha]
  obtain s5 where run5: "run ([debug_section, filter_section choice, metrics_section, counts_section,
        rfm_section, revenue_by_segment ps] @ [top_ten ps, summary_section ps]) ?s0
      = run [top_ten ps, summary_section ps] s5"
    and st05: "step ?s0 s5 {''rfm_filtered'', ''segment_counts'', ''segment_rfm'', ''segment_revenue''}"
    and rfm5: "deref s5 ''rfm'' = Some (Rfm rfm)"
    and flt5: "deref s5 ''rfm_filtered'' = Some (Rfm (rfm_filtered rfm choice))"
    and sel5: "selected s5 = Some (selected_segment rfm choice)"
    and met5: "shown_metrics s5 = Some (key_metrics (rfm_filtered rfm choice))"
    and counts5: "deref s5 ''segment_counts'' = (if ?seg then Some ?counts else None)"
    and means5: "deref s5 ''segment_rfm'' = (if ?all3 \<and> ?seg then Some ?means else None)"
    and rev5: "deref s5 ''segment_revenue'' = (if ?mon \<and> ?seg then Some ?rev else None)"
    and top5: "deref s5 ''top_customers'' = None"
    and sum5: "deref s5 ''segment_summary'' = None"
    using sections_until_revenue [OF a ha ok, of choice ps "[top_ten ps, summary_section ps]"]
    by blast
  have dash: "dashboard ps choice h a = run [top_ten ps, summary_section ps] s5"
    using run5 by (simp add: dashboard_def)
  have b5: "bound s5" using st05 by (rule step_bound)
  have pre5: "prefix h (heap s5)" "vars s5 ''rfm'' = Some a"
    using st05 s0(4) s0(5) by (simp_all add: step_def)
  show ?thesis
  proof (cases "?mon \<and> rows rfm = []")
    case True
    then have "top_ten ps s5 = Inl TypeError"
      using top_ten_result [OF rfm5, of ps] by (simp add: top_customers_empty)
    then have run: "dashboard ps choice h a = (raised rfm, s5)"
      using dash True ok by (simp add: raised_def)
    have agg: "aggregates s5 = full_aggregates ps rfm"
      using True ok
      by (simp add: aggregates_def full_aggregates_def counts5 means5 rev5 top5 sum5
          top_customers_empty)
    from run agg pre5 rfm5 flt5 sel5 met5 ok show ?thesis by simp
  next
    case False
    have "\<exists>ms. ?mon \<longrightarrow> top_customers (sort_monetary ps) rfm = Inr ms"
    proof (cases ?mon)
      case True
      with False have "rows rfm \<noteq> []" by simp
      then show ?thesis using top_customers_rows [of rfm "sort_monetary ps"] by blast
    next
      case False
      then show ?thesis by simp
    qed
    then obtain ms where ms: "?mon \<longrightarrow> top_customers (sort_monetary ps) rfm = Inr ms"
      by blast
    \<comment> \<open>the top customers\<close>
    define s6 where "s6 = (if ?mon then alloc ''top_customers'' (top_object ms) s5 else s5)"
    have r6: "top_ten ps s5 = Inr s6"
      using top_ten_result [OF rfm5, of ps] ms by (simp add: s6_def)
    have c6: "step s5 s6 {''top_customers''}
        \<and> deref s6 ''top_customers'' = (if ?mon then Some (top_object ms) else deref s5 ''top_customers'')
        \<and> selected s6 = selected s5 \<and> shown_metrics s6 = shown_metrics s5"
      using b5 s6_def by (rule cond_alloc)
    then have st6: "step s5 s6 {''top_customers''}" by blast
    have b6: "bound s6" using st6 by (rule step_bound)
    have rfm6: "deref s6 ''rfm'' = Some (Rfm rfm)"
      using step_deref [OF st6 b5, of "''rfm''"] rfm5 by simp
    \<comment> \<open>the summary\<close>
    define s7a where "s7a = (if ?seg \<and> ?all3 then alloc ''segment_summary'' ?agg s6 else s6)"
    define s7 where "s7 = (if ?seg \<and> ?all3 then alloc ''segment_summary'' ?sum s7a else s7a)"
    have r7: "summary_section ps s6 = Inr s7"
      using summary_section_result [OF rfm6, of ps] by (simp add: s7_def s7a_def)
    have c7a: "step s6 s7a {''segment_summary''}
        \<and> deref s7a ''segment_summary'' = (if ?seg \<and> ?all3 then Some ?agg else deref s6 ''segment_summary'')
        \<and> selected s7a = selected s6 \<and> shown_metrics s7a = shown_metrics s6"
      using b6 s7a_def by (rule cond_alloc)
    then have st7a: "step s6 s7a {''segment_summary''}" by blast
    have b7a: "bound s7a" using st7a by (rule step_bound)
    have c7: "step s7a s7 {''segment_summary''}
        \<and> deref s7 ''segment_summary'' = (if ?seg \<and> ?all3 then Some ?sum else deref s7a ''segment_summary'')
        \<and> selected s7 = selected s7a \<and> shown_metrics s7 = shown_metrics s7a"
      using b7a s7_def by (rule cond_alloc)
    then have st7: "step s7a s7 {''segment_summary''}" by blast
    have st67: "step s6 s7 {''segment_summary''}"
      by (rule step_trans' [OF st7a st7]) auto
    have st57: "step s5 s7 {''top_customers'', ''segment_summary''}"
      by (rule step_trans' [OF st6 st67]) auto
    have st07: "step ?s0 s7 {''rfm_filtered'', ''segment_counts'', ''segment_rfm'', ''segment_revenue'',
        ''top_customers'', ''segment_summary''}"
      by (rule step_trans' [OF st05 st57]) auto
    have run: "dashboard ps choice h a = (raised rfm, s7)"
      using dash False ok by (simp add: r6 r7 raised_def)
    have pre7: "prefix h (heap s7)" "vars s7 ''rfm'' = Some a"
      using st07 s0(4) s0(5) by (simp_all add: step_def)
    have rfm7: "deref s7 ''rfm'' = Some (Rfm rfm)"
      using step_deref [OF st57 b5, of "''rfm''"] rfm5 by simp
    have flt7: "deref s7 ''rfm_filtered'' = Some (Rfm (rfm_filtered rfm choice))"
      using step_deref [OF st57 b5, of "''rfm_filtered''"] flt5 by simp
    have sel7: "selected s7 = Some (selected_segment rfm choice)"
      using c7 c7a c6 sel5 by simp
    have met7: "shown_metrics s7 = Some (key_metrics (rfm_filtered rfm choice))"
      using c7 c7a c6 met5 by simp
    have counts7: "deref s7 ''segment_counts'' = (if ?seg then Some ?counts else None)"
      using step_deref [OF st57 b5, of "''segment_counts''"] counts5 by simp
    have means7: "deref s7 ''segment_rfm'' = (if ?all3 \<and> ?seg then Some ?means else None)"
      using step_deref [OF st57 b5, of "''segment_rfm''"] means5 by simp
    have rev7: "deref s7 ''segment_revenue'' = (if ?mon \<and> ?seg then Some ?rev else None)"
      using step_deref [OF st57 b5, of "''segment_revenue''"] rev5 by simp
    have top6: "deref s6 ''top_customers'' = (if ?mon then Some (top_object ms) else None)"
      using c6 top5 by simp
    have top7: "deref s7 ''top_customers'' = (if ?mon then Some (top_object ms) else None)"
      using step_deref [OF st67 b6, of "''top_customers''"] top6 by simp
    have sum6: "deref s6 ''segment_summary'' = None"
      using step_deref [OF st6 b5, of "''segment_summary''"] sum5 by simp
    have sum7: "deref s7 ''segment_summary'' = (if ?seg \<and> ?all3 then Some ?sum else None)"
      using c7 c7a sum6 by simp
    have nonempty: "rows rfm \<noteq> []" if "?all3"
      using that False all3_Monetary by blast
    have agg: "aggregates s7 = full_aggregates ps rfm"
      using ok ms nonempty
      by (auto simp add: aggregates_def full_aggregates_def Let_def counts7 means7 rev7 top7 sum7)
    from run agg pre7 rfm7 flt7 sel7 met7 ok show ?thesis by simp
  qed
qed

lemma outputs_result:
  assumes "deref s ''rfm'' = Some (Rfm rfm)"
    and "deref s ''rfm_filtered'' = f" and "selected s = c" and "shown_metrics s = m"
    and "aggregates s = g"
  shows "outputs s = ([Some (Rfm rfm), f] @ g, c, m)"
  using assms by (simp add: outputs_def)

text \<open>
  C9. A run of the script on a heap that holds the loaded table, whether it ends normally
  or by an exception, changes no object that existed before it: the heap of its last state
  extends the heap of the start, so the loaded table is what it was and \<^verbatim>\<open>rfm\<close> still
  refers to it, although the run changes the derived tables in place. A second run on the
  heap the first run left ends as the first did, with the same outputs.
\<close>

theorem dashboard_leaves_table:
  assumes "a < length h" and "h ! a = Rfm rfm"
  shows "prefix h (heap (snd (dashboard ps choice h a)))
         \<and> vars (snd (dashboard ps choice h a)) ''rfm'' = Some a
         \<and> heap (snd (dashboard ps choice h a)) ! a = Rfm rfm
         \<and> fst (dashboard ps choice (heap (snd (dashboard ps choice h a))) a)
             = fst (dashboard ps choice h a)
         \<and> outputs (snd (dashboard ps choice (heap (snd (dashboard ps choice h a))) a))
             = outputs (snd (dashboard ps choice h a))"
proof -
  obtain s where run: "dashboard ps choice h a = (raised rfm, s)" and pre: "prefix h (heap s)"
    and var: "vars s ''rfm'' = Some a"
    and out: "deref s ''rfm'' = Some (Rfm rfm)"
      "deref s ''rfm_filtered''
         = (if distinct (columns rfm) then Some (Rfm (rfm_filtered rfm choice)) else None)"
      "selected s = (if distinct (columns rfm) then Some (selected_segment rfm choice) else None)"
      "shown_metrics s
         = (if distinct (columns rfm) then Some (key_metrics (rfm_filtered rfm choice)) else None)"
      "aggregates s = full_aggregates ps rfm"
    using dashboard_result [OF assms, of ps choice] by blast
  from pre obtain zs where "heap s = h @ zs"
    by (auto simp: prefix_def)
  with assms have same: "a < length (heap s)" "heap s ! a = Rfm rfm"
    by (simp_all add: nth_append)
  obtain s' where again: "dashboard ps choice (heap s) a = (raised rfm, s')"
    and out': "deref s' ''rfm'' = Some (Rfm rfm)"
      "deref s' ''rfm_filtered''
         = (if distinct (columns rfm) then Some (Rfm (rfm_filtered rfm choice)) else None)"
      "selected s' = (if distinct (columns rfm) then Some (selected_segment rfm choice) else None)"
      "shown_metrics s'
         = (if distinct (columns rfm) then Some (key_metrics (rfm_filtered rfm choice)) else None)"
      "aggregates s' = full_aggregates ps rfm"
    using dashboard_result [OF same, of ps choice] by blast
  have "outputs s' = outputs s"
    using outputs_result [OF out] outputs_result [OF out'] by simp
  with run pre var same again show ?thesis by simp
qed

text \<open>A run that ends normally, on the table of the specification's example, and a run
  that ends by the exception of line 192, on the table of a file without data rows.\<close>

theorem dashboard_leaves_table_witness:
  "0 < length [Rfm rfm_loaded] \<and> [Rfm rfm_loaded] ! 0 = Rfm rfm_loaded
   \<and> fst (dashboard stable_sorts (Some ''A'') [Rfm rfm_loaded] 0) = None
   \<and> heap (snd (dashboard stable_sorts (Some ''A'') [Rfm rfm_loaded] 0)) ! 0 = Rfm rfm_loaded
   \<and> outputs (snd (dashboard stable_sorts (Some ''A'')
                      (heap (snd (dashboard stable_sorts (Some ''A'') [Rfm rfm_loaded] 0))) 0))
       = outputs (snd (dashboard stable_sorts (Some ''A'') [Rfm rfm_loaded] 0))
   \<and> 0 < length [Rfm rfm_header_only] \<and> [Rfm rfm_header_only] ! 0 = Rfm rfm_header_only
   \<and> fst (dashboard stable_sorts (Some ''A'') [Rfm rfm_header_only] 0) = Some TypeError
   \<and> heap (snd (dashboard stable_sorts (Some ''A'') [Rfm rfm_header_only] 0)) ! 0 = Rfm rfm_header_only"
proof -
  have h: "0 < length [Rfm rfm_loaded]" "[Rfm rfm_loaded] ! 0 = Rfm rfm_loaded"
    by simp_all
  have e: "0 < length [Rfm rfm_header_only]" "[Rfm rfm_header_only] ! 0 = Rfm rfm_header_only"
    by simp_all
  have "raised rfm_loaded = None"
    by (simp add: raised_def rfm_loaded_def)
  then have normal: "fst (dashboard stable_sorts (Some ''A'') [Rfm rfm_loaded] 0) = None"
    using dashboard_result [OF h, of stable_sorts "Some ''A''"] by auto
  have "raised rfm_header_only = Some TypeError"
    by (simp add: raised_def rfm_header_only_def)
  then have exc: "fst (dashboard stable_sorts (Some ''A'') [Rfm rfm_header_only] 0) = Some TypeError"
    using dashboard_result [OF e, of stable_sorts "Some ''A''"] by auto
  from dashboard_leaves_table [OF h, of stable_sorts "Some ''A''"]
    dashboard_leaves_table [OF e, of stable_sorts "Some ''A''"] h e normal exc
  show ?thesis by blast
qed

text \<open>
  C10. Two runs on the same table with two selections end in the same way, both normally
  or both by the same exception, and with the same five aggregates (segment counts,
  segment means, segment revenue, top customers, segment summary): they are computed from
  the whole table. On a table with the four columns, all five are bound when the run ends
  normally.
\<close>

theorem aggregates_ignore_selection:
  assumes "a < length h" and "h ! a = Rfm rfm"
  shows "fst (dashboard ps choice1 h a) = fst (dashboard ps choice2 h a)
         \<and> aggregates (snd (dashboard ps choice1 h a)) = aggregates (snd (dashboard ps choice2 h a))
         \<and> (fst (dashboard ps choice1 h a) = None
              \<and> list_all (\<lambda>c. c \<in> set (columns rfm))
                    [''Recency'', ''Frequency'', ''Monetary'', ''Customer_Segment'']
            \<longrightarrow> list_all (\<lambda>ob. ob \<noteq> None) (aggregates (snd (dashboard ps choice1 h a))))"
proof -
  obtain s1 where r1: "dashboard ps choice1 h a = (raised rfm, s1)"
    and a1: "aggregates s1 = full_aggregates ps rfm"
    using dashboard_result [OF assms, of ps choice1] by blast
  obtain s2 where r2: "dashboard ps choice2 h a = (raised rfm, s2)"
    and a2: "aggregates s2 = full_aggregates ps rfm"
    using dashboard_result [OF assms, of ps choice2] by blast
  have "list_all (\<lambda>ob. ob \<noteq> None) (full_aggregates ps rfm)"
    if normal: "raised rfm = None"
      and cols: "list_all (\<lambda>c. c \<in> set (columns rfm))
          [''Recency'', ''Frequency'', ''Monetary'', ''Customer_Segment'']"
  proof -
    from normal have ok: "distinct (columns rfm)"
      by (simp add: raised_def split: if_splits)
    from normal cols have ne: "rows rfm \<noteq> []"
      by (auto simp: raised_def split: if_splits)
    then obtain ms where "top_customers (sort_monetary ps) rfm = Inr ms"
      using top_customers_rows by blast
    with ok cols ne show ?thesis
      by (simp add: full_aggregates_def)
  qed
  with r1 r2 a1 a2 show ?thesis by simp
qed

theorem aggregates_ignore_selection_witness:
  "0 < length [Rfm rfm_loaded] \<and> [Rfm rfm_loaded] ! 0 = Rfm rfm_loaded
   \<and> fst (dashboard stable_sorts (Some ''A'') [Rfm rfm_loaded] 0) = None
   \<and> list_all (\<lambda>c. c \<in> set (columns rfm_loaded))
        [''Recency'', ''Frequency'', ''Monetary'', ''Customer_Segment'']
   \<and> aggregates (snd (dashboard stable_sorts (Some ''A'') [Rfm rfm_loaded] 0))
       = aggregates (snd (dashboard stable_sorts (Some ''All'') [Rfm rfm_loaded] 0))
   \<and> list_all (\<lambda>ob. ob \<noteq> None) (aggregates (snd (dashboard stable_sorts (Some ''A'') [Rfm rfm_loaded] 0)))"
proof -
  have h: "0 < length [Rfm rfm_loaded]" "[Rfm rfm_loaded] ! 0 = Rfm rfm_loaded"
    by simp_all
  have cols: "list_all (\<lambda>c. c \<in> set (columns rfm_loaded))
      [''Recency'', ''Frequency'', ''Monetary'', ''Customer_Segment'']"
    by (simp add: rfm_loaded_def)
  have "raised rfm_loaded = None"
    by (simp add: raised_def rfm_loaded_def)
  then have normal: "fst (dashboard stable_sorts (Some ''A'') [Rfm rfm_loaded] 0) = None"
    using dashboard_result [OF h, of stable_sorts "Some ''A''"] by auto
  from aggregates_ignore_selection [OF h, of stable_sorts "Some ''A''" "Some ''All''"] h cols normal
  show ?thesis by blast
qed

text \<open>The key metrics, which read \<^verbatim>\<open>rfm_filtered\<close>, do depend on the selection.\<close>

lemma key_metrics_depend_on_selection:
  "shown_metrics (snd (dashboard stable_sorts (Some ''A'') [Rfm rfm_loaded] 0))
     \<noteq> shown_metrics (snd (dashboard stable_sorts (Some ''All'') [Rfm rfm_loaded] 0))"
proof -
  have h: "0 < length [Rfm rfm_loaded]" "[Rfm rfm_loaded] ! 0 = Rfm rfm_loaded"
    by simp_all
  have ok: "distinct (columns rfm_loaded)"
    by (simp add: rfm_loaded_def)
  have m1: "shown_metrics (snd (dashboard stable_sorts (Some ''A'') [Rfm rfm_loaded] 0))
      = Some (key_metrics (rfm_filtered rfm_loaded (Some ''A'')))"
    using dashboard_result [OF h, of stable_sorts "Some ''A''"] ok by auto
  have m2: "shown_metrics (snd (dashboard stable_sorts (Some ''All'') [Rfm rfm_loaded] 0))
      = Some (key_metrics (rfm_filtered rfm_loaded (Some ''All'')))"
    using dashboard_result [OF h, of stable_sorts "Some ''All''"] ok by auto
  have "Total_Customers (key_metrics (rfm_filtered rfm_loaded (Some ''A''))) = 2"
    by code_simp
  moreover have "Total_Customers (key_metrics (rfm_filtered rfm_loaded (Some ''All''))) = 3"
    by code_simp
  ultimately have "Total_Customers (key_metrics (rfm_filtered rfm_loaded (Some ''A'')))
      \<noteq> Total_Customers (key_metrics (rfm_filtered rfm_loaded (Some ''All'')))"
    by simp
  then have "key_metrics (rfm_filtered rfm_loaded (Some ''A''))
      \<noteq> key_metrics (rfm_filtered rfm_loaded (Some ''All''))"
    by auto
  with m1 m2 show ?thesis by simp
qed

text \<open>The loader gives two columns the name \<^verbatim>\<open>CustomerID\<close> when the file has an unnamed
  first column and a column \<^verbatim>\<open>CustomerID\<close>; the run then ends at line 52.\<close>

lemma dashboard_duplicate_columns:
  "load_rfm (Inr \<lparr>columns = [''Unnamed: 0'', ''CustomerID'', ''Monetary''], rows = [row 1 1 50 ''A'']\<rparr>)
     = Inr \<lparr>columns = [''CustomerID'', ''CustomerID'', ''Monetary''], rows = [row 1 1 50 ''A'']\<rparr>
   \<and> fst (dashboard stable_sorts (Some ''All'')
            [Rfm \<lparr>columns = [''CustomerID'', ''CustomerID'', ''Monetary''], rows = [row 1 1 50 ''A'']\<rparr>] 0)
       = Some ValueError"
proof -
  let ?t = "\<lparr>columns = [''CustomerID'', ''CustomerID'', ''Monetary''], rows = [row 1 1 50 ''A'']\<rparr>"
  have h: "0 < length [Rfm ?t]" "[Rfm ?t] ! 0 = Rfm ?t"
    by simp_all
  have "raised ?t = Some ValueError"
    by (simp add: raised_def)
  then have "fst (dashboard stable_sorts (Some ''All'') [Rfm ?t] 0) = Some ValueError"
    using dashboard_result [OF h, of stable_sorts "Some ''All''"] by auto
  then show ?thesis
    by (simp add: load_rfm_def rename_def)
qed

text \<open>The aggregates of the table of the specification's example, with sorts that keep the
  order of equal keys.\<close>

lemma full_aggregates_example:
  "full_aggregates stable_sorts rfm_loaded =
     [Some (Derived \<lparr>index = [Num 0, Num 1], labels = [''Segment'', ''Count''],
                     body = [[Str ''A'', Num 2], [Str ''B'', Num 1]]\<rparr>),
      Some (Derived \<lparr>index = [Str ''A'', Str ''B''], labels = [''Recency'', ''Frequency'', ''Monetary''],
                     body = [[Num 15, Num (7 / 2), Num 200], [Num 5, Num 1, Num 50]]\<rparr>),
      Some (Derived \<lparr>index = [Num 0, Num 1], labels = [''Segment'', ''Revenue''],
                     body = [[Str ''A'', Num 400], [Str ''B'', Num 50]]\<rparr>),
      Some (Derived \<lparr>index = [Num 0, Num 1, Num 2], labels = [''Monetary'', ''Customer''],
                     body = [[Num 300, Str ''Customer 1''], [Num 100, Str ''Customer 2''],
                             [Num 50, Str ''Customer 3'']]\<rparr>),
      Some (Derived \<lparr>index = [Str ''A'', Str ''B''],
                     labels = [''Avg Recency'', ''Avg Frequency'', ''Avg Monetary'', ''Total Revenue'',
                               ''Customer Count''],
                     body = [[Num 15, Num (7 / 2), Num 200, Num 400, Num 2],
                             [Num 5, Num 1, Num 50, Num 50, Num 1]]\<rparr>)]"
  by code_simp

end
